theory Spec2Isabelle
  imports Complex_Main "HOL-Library.Monad_Syntax" "HOL-Library.Word"
begin

section \<open>mbtilego: tile enumeration and the fetch pipeline of mbutil.go\<close>

text \<open>
  The development embeds \<^verbatim>\<open>mbutil.go\<close>. Conventions of the embedding:
  \<^item> a \<^verbatim>\<open>float64\<close> is a \<^typ>\<open>real\<close>: in the projection arithmetic is exact, and NaN,
    the infinities and the rounding of binary64 are outside the model; for \<^verbatim>\<open>Round\<close> on its
    own there is a second definition with the rounding of binary64 (\<open>Round_float64\<close>);
  \<^item> a Go \<^verbatim>\<open>int\<close> is an \<^typ>\<open>int\<close>: the only integers the code computes with are zoom
    levels and tile indices, which it compares and increments by one; the conversion of a
    quotient beyond the range of 64 bits, which Go leaves to the implementation, has no
    fixed value in the model (\<open>int_of_float64\<close>);
  \<^item> a run-time panic (a slice index out of range) is the value \<open>None\<close> of an option type;
  \<^item> \<^verbatim>\<open>log.Fatal\<close> (which ends the process) is the value \<open>Fatal\<close> of an outcome type;
  \<^item> the output of \<^verbatim>\<open>fmt.Println\<close> is left out.
\<close>

subsection \<open>Constants\<close>

definition DEG_TO_RAD :: real where
  "DEG_TO_RAD = pi / 180"

definition DEFAULT_TILE_SIZE :: real where
  "DEFAULT_TILE_SIZE = 256"

definition MAX_ZOOM_LEVEL :: int where
  "MAX_ZOOM_LEVEL = 19"

subsection \<open>Data\<close>

type_synonym byte = "8 word"

text \<open>
  \<^verbatim>\<open>type Tile struct { z, x, y int; Content []byte }\<close>. The fields \<^verbatim>\<open>z\<close>, \<^verbatim>\<open>x\<close>, \<^verbatim>\<open>y\<close> carry the
  prefix \<open>tile_\<close> here, so that \<open>x\<close>, \<open>y\<close> and \<open>z\<close> stay usable as variables.
\<close>

record Tile =
  tile_z :: int
  tile_x :: int
  tile_y :: int
  Content :: "byte list"

text \<open>
  \<^verbatim>\<open>type Projection struct { Bc, Cc, Ac []float64; Zc [][]float64; levels []int;
  xmin, ymin, xmax, ymax float64 }\<close>. The four corner fields carry the prefix \<open>box_\<close>.
\<close>

record Projection =
  Bc :: "real list"
  Cc :: "real list"
  Ac :: "real list"
  Zc :: "real list list"
  levels :: "int list"
  box_xmin :: real
  box_ymin :: real
  box_xmax :: real
  box_ymax :: real

subsection \<open>Numeric helpers\<close>

text \<open>
  \<^verbatim>\<open>func Round(value float64) float64\<close>, lines 310 to 315, with the subtraction of line
  312 and the addition of line 314 taken exactly. This is the function the projection is
  modelled with.
\<close>

definition Round :: "real \<Rightarrow> real" where
  "Round v = (if v < 0 then of_int \<lceil>v - 0.5\<rceil> else of_int \<lfloor>v + 0.5\<rfloor>)"




text \<open>\<^verbatim>\<open>func minMax(a, b, c float64) float64\<close>, lines 225 to 228.\<close>

definition minMax :: "real \<Rightarrow> real \<Rightarrow> real \<Rightarrow> real" where
  "minMax a b c = (let max_of_a_b = max a b in min max_of_a_b c)"

text \<open>
  The conversion \<^verbatim>\<open>int(f)\<close> of a \<^verbatim>\<open>float64\<close>: Go discards the fraction, that is, it
  truncates towards zero. When the value does not fit the 64 bits of an \<^verbatim>\<open>int\<close>, the
  language leaves the result to the implementation; there the model fixes no value.
\<close>

definition towards_zero :: "real \<Rightarrow> int" where
  "towards_zero f = (if f < 0 then \<lceil>f\<rceil> else \<lfloor>f\<rfloor>)"

definition int_of_float64 :: "real \<Rightarrow> int" where
  "int_of_float64 f = (if - (2 ^ 63) \<le> f \<and> f < 2 ^ 63 then towards_zero f else undefined)"

text \<open>A slice read \<^verbatim>\<open>xs[i]\<close>: it panics when the index is out of range.\<close>

definition index :: "'a list \<Rightarrow> int \<Rightarrow> 'a option" where
  "index xs i = (if 0 \<le> i \<and> i < int (length xs) then Some (xs ! nat i) else None)"

subsection \<open>NewProjection\<close>

text \<open>The first loop of \<^verbatim>\<open>NewProjection\<close> (lines 255 to 257) appends the zoom levels.\<close>

function levels_loop :: "int \<Rightarrow> Projection \<Rightarrow> Projection" where
  "levels_loop i proj =
     (if i \<le> MAX_ZOOM_LEVEL
      then levels_loop (i + 1) (proj\<lparr>levels := levels proj @ [i]\<rparr>)
      else proj)"
  by pat_completeness auto
termination
  by (relation "measure (\<lambda>(i, proj). nat (MAX_ZOOM_LEVEL + 1 - i))") auto

declare levels_loop.simps [simp del]

text \<open>
  The second loop (lines 261 to 268) appends one entry per zoom level to each table;
  \<open>c\<close> is the width of the world in pixels and doubles with every level.
\<close>

function tables_loop :: "int \<Rightarrow> real \<Rightarrow> Projection \<Rightarrow> Projection" where
  "tables_loop i c proj =
     (if i \<le> MAX_ZOOM_LEVEL
      then (let e = c / 2.0 in
            tables_loop (i + 1) (c * 2)
              (proj\<lparr>Bc := Bc proj @ [c / 360.0],
                    Cc := Cc proj @ [c / (2.0 * pi)],
                    Zc := Zc proj @ [[e, e]],
                    Ac := Ac proj @ [c]\<rparr>))
      else proj)"
  by pat_completeness auto
termination
  by (relation "measure (\<lambda>(i, c, proj). nat (MAX_ZOOM_LEVEL + 1 - i))") auto

declare tables_loop.simps [simp del]

definition NewProjection :: "real \<Rightarrow> real \<Rightarrow> real \<Rightarrow> real \<Rightarrow> int \<Rightarrow> Projection" where
  "NewProjection xmin ymin xmax ymax zoomlevel =
     (let proj = \<lparr>Bc = [], Cc = [], Ac = [], Zc = [], levels = [],
                   box_xmin = xmin, box_ymin = ymin, box_xmax = xmax, box_ymax = ymax\<rparr>;
          proj = levels_loop zoomlevel proj
      in tables_loop 0 DEFAULT_TILE_SIZE proj)"

subsection \<open>project_pixels\<close>

text \<open>
  Lines 273 to 280. The reads \<^verbatim>\<open>proj.Zc[zoom]\<close>, \<^verbatim>\<open>d[0]\<close>, \<^verbatim>\<open>proj.Bc[zoom]\<close>, \<^verbatim>\<open>d[1]\<close> and
  \<^verbatim>\<open>proj.Cc[zoom]\<close> panic out of range. The result is the two-element slice \<open>[e, g]\<close>.
\<close>

definition project_pixels :: "Projection \<Rightarrow> real \<Rightarrow> real \<Rightarrow> int \<Rightarrow> real list option" where
  "project_pixels proj x y zoom = do {
     d \<leftarrow> index (Zc proj) zoom;
     d0 \<leftarrow> index d 0;
     bc \<leftarrow> index (Bc proj) zoom;
     let e = Round (d0 + x * bc);
     let f = minMax (sin (DEG_TO_RAD * y)) (- 0.9999) 0.9999;
     d1 \<leftarrow> index d 1;
     cc \<leftarrow> index (Cc proj) zoom;
     let g = Round (d1 + 0.5 * ln ((1 + f) / (1 - f)) * - cc);
     Some [e, g]
   }"

subsection \<open>TileList\<close>

text \<open>
  The four tile-index bounds of lines 290, 291, 296 and 297, as functions of the projected
  corners \<open>px0\<close> (left top) and \<open>px1\<close> (right bottom). Both corners are results of
  \<open>project_pixels\<close>, which have two elements, so the reads at 0 and 1 are in range.
\<close>

definition xrangeStart :: "real list \<Rightarrow> int" where
  "xrangeStart px0 = int_of_float64 (px0 ! 0 / DEFAULT_TILE_SIZE)"

definition xrangeEnd :: "real list \<Rightarrow> int" where
  "xrangeEnd px1 = int_of_float64 (px1 ! 0 / DEFAULT_TILE_SIZE)"

definition yrangeStart :: "real list \<Rightarrow> int" where
  "yrangeStart px0 = int_of_float64 (px0 ! 1 / DEFAULT_TILE_SIZE)"

definition yrangeEnd :: "real list \<Rightarrow> int" where
  "yrangeEnd px1 = int_of_float64 (px1 ! 1 / DEFAULT_TILE_SIZE)"

text \<open>The appended value \<^verbatim>\<open>Tile{z: zoom, x: x, y: y}\<close>; its content is the nil slice.\<close>

definition mkTile :: "int \<Rightarrow> int \<Rightarrow> int \<Rightarrow> Tile" where
  "mkTile zoom x y = \<lparr>tile_z = zoom, tile_x = x, tile_y = y, Content = []\<rparr>"

text \<open>The inner loop over the rows, lines 298 to 303; \<open>yend\<close> is \<^verbatim>\<open>yrangeEnd\<close>.\<close>

function y_loop :: "int \<Rightarrow> int \<Rightarrow> int \<Rightarrow> int \<Rightarrow> real \<Rightarrow> Tile list \<Rightarrow> Tile list" where
  "y_loop zoom x y yend two_power_zoom tilelist =
     (if y \<le> yend
      then (if y < 0 \<or> real_of_int y > two_power_zoom
            then y_loop zoom x (y + 1) yend two_power_zoom tilelist
            else y_loop zoom x (y + 1) yend two_power_zoom (tilelist @ [mkTile zoom x y]))
      else tilelist)"
  by pat_completeness auto
termination
  by (relation "measure (\<lambda>(zoom, x, y, yend, t, l). nat (yend + 1 - y))") auto

declare y_loop.simps [simp del]

text \<open>The loop over the columns, lines 292 to 304; \<open>xend\<close> is \<^verbatim>\<open>xrangeEnd\<close>.\<close>

function x_loop ::
  "int \<Rightarrow> int \<Rightarrow> int \<Rightarrow> real list \<Rightarrow> real list \<Rightarrow> real \<Rightarrow> Tile list \<Rightarrow> Tile list" where
  "x_loop zoom x xend px0 px1 two_power_zoom tilelist =
     (if x \<le> xend
      then (if x < 0 \<or> real_of_int x > two_power_zoom
            then x_loop zoom (x + 1) xend px0 px1 two_power_zoom tilelist
            else x_loop zoom (x + 1) xend px0 px1 two_power_zoom
                   (y_loop zoom x (yrangeStart px0) (yrangeEnd px1) two_power_zoom tilelist))
      else tilelist)"
  by pat_completeness auto
termination
  by (relation "measure (\<lambda>(zoom, x, xend, p0, p1, t, l). nat (xend + 1 - x))") auto

declare x_loop.simps [simp del]

text \<open>
  The outer loop over \<^verbatim>\<open>proj.levels\<close>, lines 285 to 306. \<^verbatim>\<open>math.Pow(2, float64(zoom))\<close> is
  the integer power \<open>2 powi zoom\<close>. A panic of \<open>project_pixels\<close> ends the whole call.
\<close>

fun zoom_loop :: "Projection \<Rightarrow> int list \<Rightarrow> Tile list \<Rightarrow> Tile list option" where
  "zoom_loop proj [] tilelist = Some tilelist"
| "zoom_loop proj (zoom # rest) tilelist = do {
     let two_power_zoom = (2::real) powi zoom;
     px0 \<leftarrow> project_pixels proj (box_xmin proj) (box_ymax proj) zoom;
     px1 \<leftarrow> project_pixels proj (box_xmax proj) (box_ymin proj) zoom;
     zoom_loop proj rest
       (x_loop zoom (xrangeStart px0) (xrangeEnd px1) px0 px1 two_power_zoom tilelist)
   }"

definition TileList :: "Projection \<Rightarrow> Tile list option" where
  "TileList proj = zoom_loop proj (levels proj) []"

subsection \<open>The fetch pipeline\<close>

text \<open>
  What \<^verbatim>\<open>http.Get\<close> followed by \<^verbatim>\<open>ioutil.ReadAll(resp.Body)\<close> can give. \<^verbatim>\<open>http.Get\<close> returns a
  non-nil error only when the request itself fails (a transport or protocol failure); a
  response with a status other than 2xx comes back with a nil error. \<open>Response st bytes e\<close>
  is a response with status code \<open>st\<close>, of whose body \<^verbatim>\<open>ReadAll\<close> returned \<open>bytes\<close>, and \<open>e\<close>
  tells whether \<^verbatim>\<open>ReadAll\<close> also returned an error.
\<close>

datatype http_result = GetError | Response int "byte list" bool

text \<open>
  The outcome of a piece of the process: \<open>Fatal\<close> is \<^verbatim>\<open>log.Fatal\<close>, \<open>Blocked\<close> a receive on an
  empty channel, \<open>Exit\<close> the end of a loop, \<open>Done\<close> a normal result.
\<close>

datatype 'a outcome = Fatal | Blocked | Exit | Done 'a

text \<open>
  \<^verbatim>\<open>func fetchTile(z, x, y int) Tile\<close>, lines 65 to 78. The parameter \<open>get\<close> is the tile
  source: \<open>get z x y\<close> is what the request for the URL of \<^verbatim>\<open>getTileUrl(z, x, y)\<close> gives. The
  error of \<^verbatim>\<open>ReadAll\<close> is assigned and never read.
\<close>

definition fetchTile :: "(int \<Rightarrow> int \<Rightarrow> int \<Rightarrow> http_result) \<Rightarrow> int \<Rightarrow> int \<Rightarrow> int \<Rightarrow> Tile outcome" where
  "fetchTile get z x y =
     (case get z x y of
        GetError \<Rightarrow> Fatal
      | Response st bytes err \<Rightarrow> Done \<lparr>tile_z = z, tile_x = x, tile_y = y, Content = bytes\<rparr>)"

text \<open>
  The table \<^verbatim>\<open>tiles\<close> is the list of its rows. \<^verbatim>\<open>setupMBTileTables\<close> puts the unique index
  \<^verbatim>\<open>tile_index\<close> on \<^verbatim>\<open>(zoom_level, tile_column, tile_row)\<close>, so the insert of \<^verbatim>\<open>addToMBTile\<close>
  (lines 49 to 55) fails on a key that is already stored. Other failures of the storage
  engine are not modelled.
\<close>

datatype db_error = UniqueConstraint

definition tile_key :: "Tile \<Rightarrow> int \<times> int \<times> int" where
  "tile_key t = (tile_z t, tile_x t, tile_y t)"

definition addToMBTile :: "Tile \<Rightarrow> Tile list \<Rightarrow> db_error + Tile list" where
  "addToMBTile tile db =
     (if tile_key tile \<in> set (map tile_key db) then Inl UniqueConstraint else Inr (db @ [tile]))"

text \<open>
  The state of the pipeline that \<^verbatim>\<open>main\<close> builds (lines 197 to 216): the three channels in
  FIFO order, the rows of the store, the tiles \<^verbatim>\<open>main\<close> has still to send and the number of
  acknowledgements it has still to receive. Every channel has room for \<^verbatim>\<open>len(tiles)\<close>
  values, so a send never blocks.
\<close>

record pipeline =
  inputPipe :: "Tile list"
  tilePipe :: "Tile list"
  outputPipe :: "Tile list"
  db :: "Tile list"
  to_send :: "Tile list"
  to_receive :: nat

text \<open>
  One round of the loop of \<^verbatim>\<open>tileFetcher\<close>, lines 57 to 63: receive a request, fetch, send
  the result on. (\<open>fetchTile\<close> gives \<open>Fatal\<close> or \<open>Done\<close>, nothing else.)
\<close>

definition tileFetcher :: "(int \<Rightarrow> int \<Rightarrow> int \<Rightarrow> http_result) \<Rightarrow> pipeline \<Rightarrow> pipeline outcome" where
  "tileFetcher get s =
     (case inputPipe s of
        [] \<Rightarrow> Blocked
      | tile # rest \<Rightarrow>
          (case fetchTile get (tile_z tile) (tile_x tile) (tile_y tile) of
             Done tileObj \<Rightarrow> Done (s\<lparr>inputPipe := rest, tilePipe := tilePipe s @ [tileObj]\<rparr>)
           | _ \<Rightarrow> Fatal))"

text \<open>One round of the loop of \<^verbatim>\<open>mbTileWorker\<close>, lines 38 to 47.\<close>

definition mbTileWorker :: "pipeline \<Rightarrow> pipeline outcome" where
  "mbTileWorker s =
     (case tilePipe s of
        [] \<Rightarrow> Blocked
      | tile # rest \<Rightarrow>
          (case addToMBTile tile (db s) of
             Inl err \<Rightarrow> Fatal
           | Inr db' \<Rightarrow> Done (s\<lparr>tilePipe := rest, db := db', outputPipe := outputPipe s @ [tile]\<rparr>)))"

text \<open>
  \<^verbatim>\<open>main\<close> from line 197 on: the state after the channels are made and the workers
  started, and one round of its two loops (the sends of lines 209 to 211, then the
  receives of lines 214 to 216). The store is new: \<^verbatim>\<open>prepareDatabase\<close> removes the file.
\<close>

definition start_pipeline :: "Tile list \<Rightarrow> pipeline" where
  "start_pipeline tiles =
     \<lparr>inputPipe = [], tilePipe = [], outputPipe = [], db = [],
      to_send = tiles, to_receive = length tiles\<rparr>"

definition main_loops :: "pipeline \<Rightarrow> pipeline outcome" where
  "main_loops s =
     (case to_send s of
        tile # rest \<Rightarrow> Done (s\<lparr>to_send := rest, inputPipe := inputPipe s @ [tile]\<rparr>)
      | [] \<Rightarrow>
          (if to_receive s = 0 then Exit
           else (case outputPipe s of
                   [] \<Rightarrow> Blocked
                 | tile # rest \<Rightarrow> Done (s\<lparr>outputPipe := rest, to_receive := to_receive s - 1\<rparr>))))"

text \<open>
  \<^verbatim>\<open>main\<close> up to the pipeline: the tile list of the projection (a panic is \<open>None\<close>) and the
  pipeline started on it.
\<close>

definition main_pipeline :: "real \<Rightarrow> real \<Rightarrow> real \<Rightarrow> real \<Rightarrow> int \<Rightarrow> pipeline option" where
  "main_pipeline xmin ymin xmax ymax zoomlevel = do {
     let proj = NewProjection xmin ymin xmax ymax zoomlevel;
     tiles \<leftarrow> TileList proj;
     Some (start_pipeline tiles)
   }"

text \<open>
  A step of the running process is a round of one of its goroutines; the twenty fetchers
  keep no state of their own, so one rule stands for all of them.
\<close>

definition step :: "(int \<Rightarrow> int \<Rightarrow> int \<Rightarrow> http_result) \<Rightarrow> pipeline \<Rightarrow> pipeline \<Rightarrow> bool" where
  "step get s s' =
     (tileFetcher get s = Done s' \<or> mbTileWorker s = Done s' \<or> main_loops s = Done s')"

subsection \<open>Notions used in the statements\<close>

text \<open>The clip of lines 293 and 299: an index is kept unless it is negative or above \<open>2^z\<close>.\<close>

definition kept :: "real \<Rightarrow> int \<Rightarrow> bool" where
  "kept two_power_zoom i = (\<not> (i < 0 \<or> real_of_int i > two_power_zoom))"

text \<open>The tiles one zoom level adds, column by column, from its two projected corners.\<close>

definition level_tiles :: "int \<Rightarrow> real list \<Rightarrow> real list \<Rightarrow> Tile list" where
  "level_tiles zoom px0 px1 =
     concat (map (\<lambda>x. map (mkTile zoom x)
                          (filter (kept (2 powi zoom)) [yrangeStart px0..yrangeEnd px1]))
                 (filter (kept (2 powi zoom)) [xrangeStart px0..xrangeEnd px1]))"

text \<open>The order of the list: by zoom, then column, then row.\<close>

definition tile_less :: "Tile \<Rightarrow> Tile \<Rightarrow> bool" where
  "tile_less a b =
     (tile_z a < tile_z b \<or>
      (tile_z a = tile_z b \<and>
        (tile_x a < tile_x b \<or> (tile_x a = tile_x b \<and> tile_y a < tile_y b))))"


text \<open>
  The two pixel coordinates that \<open>project_pixels\<close> computes from the tables of
  \<open>NewProjection\<close>, where the entry of zoom level \<open>k\<close> is built from \<open>c = 256 * 2^k\<close>:
  first the arguments that lines 276 and 278 hand to \<^verbatim>\<open>Round\<close> (the projection before it is
  rounded to whole pixels), then the rounded coordinates.
\<close>

definition unrounded_x :: "int \<Rightarrow> real \<Rightarrow> real" where
  "unrounded_x zoom x = 256 * 2 ^ nat zoom / 2 + x * (256 * 2 ^ nat zoom / 360)"

definition unrounded_y :: "int \<Rightarrow> real \<Rightarrow> real" where
  "unrounded_y zoom y =
     (let f = minMax (sin (DEG_TO_RAD * y)) (- 0.9999) 0.9999
      in 256 * 2 ^ nat zoom / 2 + 0.5 * ln ((1 + f) / (1 - f)) * - (256 * 2 ^ nat zoom / (2 * pi)))"

definition pixel_x :: "int \<Rightarrow> real \<Rightarrow> real" where
  "pixel_x zoom x = Round (256 * 2 ^ nat zoom / 2 + x * (256 * 2 ^ nat zoom / 360))"

definition pixel_y :: "int \<Rightarrow> real \<Rightarrow> real" where
  "pixel_y zoom y =
     (let f = minMax (sin (DEG_TO_RAD * y)) (- 0.9999) 0.9999
      in Round (256 * 2 ^ nat zoom / 2 + 0.5 * ln ((1 + f) / (1 - f)) * - (256 * 2 ^ nat zoom / (2 * pi))))"

text \<open>The projected corners of the box at a zoom level of the table: left top, right bottom.\<close>

definition corner0 :: "real \<Rightarrow> real \<Rightarrow> int \<Rightarrow> real list" where
  "corner0 xmin ymax zoom = [pixel_x zoom xmin, pixel_y zoom ymax]"

definition corner1 :: "real \<Rightarrow> real \<Rightarrow> int \<Rightarrow> real list" where
  "corner1 xmax ymin zoom = [pixel_x zoom xmax, pixel_y zoom ymin]"

text \<open>A tile source that answers every request with status 404 and the body \<^verbatim>\<open>404\<close>.\<close>

definition not_found_source :: "int \<Rightarrow> int \<Rightarrow> int \<Rightarrow> http_result" where
  "not_found_source z x y = Response 404 [52, 48, 52] False"

text \<open>A tile source that cannot be reached: every request fails in transport.\<close>

definition unreachable_source :: "int \<Rightarrow> int \<Rightarrow> int \<Rightarrow> http_result" where
  "unreachable_source z x y = GetError"

text \<open>A tile source whose responses arrive with status 200 and break off after one byte.\<close>

definition broken_body_source :: "int \<Rightarrow> int \<Rightarrow> int \<Rightarrow> http_result" where
  "broken_body_source z x y = Response 200 [137] True"

section \<open>The loops in closed form\<close>

lemma y_loop_eq:
  "y_loop zoom x y yend tpz acc = acc @ map (mkTile zoom x) (filter (kept tpz) [y..yend])"
proof (induction zoom x y yend tpz acc rule: y_loop.induct)
  case (1 zoom x y yend tpz acc)
  show ?case
  proof (cases "y \<le> yend")
    case False
    then show ?thesis
      by (subst y_loop.simps) simp
  next
    case True
    then have up: "[y..yend] = y # [y + 1..yend]"
      by (simp add: upto_rec1)
    show ?thesis
    proof (cases "kept tpz y")
      case True
      then have k: "\<not> (y < 0 \<or> tpz < real_of_int y)"
        by (simp add: kept_def)
      show ?thesis
        using "1.IH"(2) [OF \<open>y \<le> yend\<close> k] True
        by (subst y_loop.simps) (simp add: up \<open>y \<le> yend\<close> k)
    next
      case False
      then have k: "y < 0 \<or> tpz < real_of_int y"
        by (simp add: kept_def)
      show ?thesis
        using "1.IH"(1) [OF \<open>y \<le> yend\<close> k] False
        by (subst y_loop.simps) (simp add: up \<open>y \<le> yend\<close> k)
    qed
  qed
qed

lemma x_loop_eq:
  "x_loop zoom x xend px0 px1 tpz acc =
     acc @ concat (map (\<lambda>x. map (mkTile zoom x)
                               (filter (kept tpz) [yrangeStart px0..yrangeEnd px1]))
                      (filter (kept tpz) [x..xend]))"
proof (induction zoom x xend px0 px1 tpz acc rule: x_loop.induct)
  case (1 zoom x xend px0 px1 tpz acc)
  show ?case
  proof (cases "x \<le> xend")
    case False
    then show ?thesis
      by (subst x_loop.simps) simp
  next
    case True
    then have up: "[x..xend] = x # [x + 1..xend]"
      by (simp add: upto_rec1)
    show ?thesis
    proof (cases "kept tpz x")
      case True
      then have k: "\<not> (x < 0 \<or> tpz < real_of_int x)"
        by (simp add: kept_def)
      show ?thesis
        using "1.IH"(2) [OF \<open>x \<le> xend\<close> k] True
        by (subst x_loop.simps) (simp add: up \<open>x \<le> xend\<close> k y_loop_eq)
    next
      case False
      then have k: "x < 0 \<or> tpz < real_of_int x"
        by (simp add: kept_def)
      show ?thesis
        using "1.IH"(1) [OF \<open>x \<le> xend\<close> k] False
        by (subst x_loop.simps) (simp add: up \<open>x \<le> xend\<close> k)
    qed
  qed
qed

lemma x_loop_level_tiles:
  "x_loop zoom (xrangeStart px0) (xrangeEnd px1) px0 px1 (2 powi zoom) acc =
     acc @ level_tiles zoom px0 px1"
  by (simp add: x_loop_eq level_tiles_def)

lemma zoom_loop_None:
  "project_pixels proj (box_xmin proj) (box_ymax proj) zoom = None \<or>
   project_pixels proj (box_xmax proj) (box_ymin proj) zoom = None \<Longrightarrow>
   zoom_loop proj (zoom # rest) acc = None"
  by (auto simp: Let_def split: Option.bind_splits)

lemma zoom_loop_Some:
  "zoom_loop proj ls acc = Some ts \<Longrightarrow>
     (\<forall>zoom \<in> set ls. project_pixels proj (box_xmin proj) (box_ymax proj) zoom \<noteq> None
                   \<and> project_pixels proj (box_xmax proj) (box_ymin proj) zoom \<noteq> None)
     \<and> ts = acc @ concat (map (\<lambda>zoom. level_tiles zoom
                 (the (project_pixels proj (box_xmin proj) (box_ymax proj) zoom))
                 (the (project_pixels proj (box_xmax proj) (box_ymin proj) zoom))) ls)"
proof (induction ls arbitrary: acc)
  case Nil
  then show ?case by simp
next
  case (Cons zoom rest)
  from Cons.prems obtain px0 px1 where
    p0: "project_pixels proj (box_xmin proj) (box_ymax proj) zoom = Some px0" and
    p1: "project_pixels proj (box_xmax proj) (box_ymin proj) zoom = Some px1" and
    r: "zoom_loop proj rest (acc @ level_tiles zoom px0 px1) = Some ts"
    by (auto simp: Let_def x_loop_level_tiles split: Option.bind_splits)
  from Cons.IH [OF r] p0 p1 show ?case
    by simp
qed

lemma zoom_loop_total:
  "\<forall>zoom \<in> set ls. project_pixels proj (box_xmin proj) (box_ymax proj) zoom \<noteq> None
                   \<and> project_pixels proj (box_xmax proj) (box_ymin proj) zoom \<noteq> None \<Longrightarrow>
   \<exists>ts. zoom_loop proj ls acc = Some ts"
proof (induction ls arbitrary: acc)
  case Nil
  then show ?case by simp
next
  case (Cons zoom rest)
  then show ?case
    by (auto simp: Let_def)
qed


lemma levels_loop_eq:
  "levels_loop i proj = proj\<lparr>levels := levels proj @ [i..MAX_ZOOM_LEVEL]\<rparr>"
proof (induction i proj rule: levels_loop.induct)
  case (1 i proj)
  show ?case
  proof (cases "i \<le> MAX_ZOOM_LEVEL")
    case True
    then show ?thesis
      using "1.IH" [OF True]
      by (subst levels_loop.simps) (simp add: upto_rec1)
  next
    case False
    then show ?thesis
      by (subst levels_loop.simps) simp
  qed
qed

lemma map_upt_shift: "f 0 # map (\<lambda>k. f (Suc k)) [0..<n] = map f [0..<Suc n]"
  by (simp add: map_upt_Suc del: upt_Suc)

lemma tables_loop_eq:
  "0 \<le> i \<Longrightarrow> i \<le> MAX_ZOOM_LEVEL + 1 \<Longrightarrow>
   tables_loop i c proj =
     proj\<lparr>Bc := Bc proj @ map (\<lambda>k. c * 2 ^ k / 360) [0..<nat (MAX_ZOOM_LEVEL + 1 - i)],
           Cc := Cc proj @ map (\<lambda>k. c * 2 ^ k / (2 * pi)) [0..<nat (MAX_ZOOM_LEVEL + 1 - i)],
           Zc := Zc proj @ map (\<lambda>k. [c * 2 ^ k / 2, c * 2 ^ k / 2]) [0..<nat (MAX_ZOOM_LEVEL + 1 - i)],
           Ac := Ac proj @ map (\<lambda>k. c * 2 ^ k) [0..<nat (MAX_ZOOM_LEVEL + 1 - i)]\<rparr>"
proof (induction i c proj rule: tables_loop.induct)
  case (1 i c proj)
  show ?case
  proof (cases "i \<le> MAX_ZOOM_LEVEL")
    case False
    with "1.prems" have "i = MAX_ZOOM_LEVEL + 1" by simp
    then show ?thesis
      by (subst tables_loop.simps) simp
  next
    case True
    define m where "m = nat (MAX_ZOOM_LEVEL + 1 - (i + 1))"
    define P where "P = proj\<lparr>Bc := Bc proj @ [c / 360.0], Cc := Cc proj @ [c / (2.0 * pi)],
               Zc := Zc proj @ [[c / 2.0, c / 2.0]], Ac := Ac proj @ [c]\<rparr>"
    have n: "nat (MAX_ZOOM_LEVEL + 1 - i) = Suc m"
      using True by (simp add: m_def)
    have unfold: "tables_loop i c proj = tables_loop (i + 1) (c * 2) P"
      by (subst tables_loop.simps) (simp add: True Let_def P_def)
    have ih: "tables_loop (i + 1) (c * 2) P =
        P\<lparr>Bc := Bc P @ map (\<lambda>k. c * 2 * 2 ^ k / 360) [0..<m],
          Cc := Cc P @ map (\<lambda>k. c * 2 * 2 ^ k / (2 * pi)) [0..<m],
          Zc := Zc P @ map (\<lambda>k. [c * 2 * 2 ^ k / 2, c * 2 * 2 ^ k / 2]) [0..<m],
          Ac := Ac P @ map (\<lambda>k. c * 2 * 2 ^ k) [0..<m]\<rparr>"
      unfolding m_def P_def
      by (rule "1.IH" [OF True refl]) (use "1.prems" True in simp_all)
    have b: "[c / 360] @ map (\<lambda>k. c * 2 * 2 ^ k / 360) [0..<m] = map (\<lambda>k. c * 2 ^ k / 360) [0..<Suc m]"
      using map_upt_shift [of "\<lambda>k. c * 2 ^ k / 360" m] by (simp add: mult.assoc)
    have cc: "[c / (2 * pi)] @ map (\<lambda>k. c * 2 * 2 ^ k / (2 * pi)) [0..<m] = map (\<lambda>k. c * 2 ^ k / (2 * pi)) [0..<Suc m]"
      using map_upt_shift [of "\<lambda>k. c * 2 ^ k / (2 * pi)" m] by (simp add: mult.assoc)
    have z: "[[c / 2, c / 2]] @ map (\<lambda>k. [c * 2 * 2 ^ k / 2, c * 2 * 2 ^ k / 2]) [0..<m] = map (\<lambda>k. [c * 2 ^ k / 2, c * 2 ^ k / 2]) [0..<Suc m]"
      using map_upt_shift [of "\<lambda>k. [c * 2 ^ k / 2, c * 2 ^ k / 2]" m] by (simp add: mult.assoc)
    have a: "[c] @ map (\<lambda>k. c * 2 * 2 ^ k) [0..<m] = map (\<lambda>k. c * 2 ^ k) [0..<Suc m]"
      using map_upt_shift [of "\<lambda>k. c * 2 ^ k" m] by (simp add: mult.assoc)
    have "P\<lparr>Bc := Bc P @ map (\<lambda>k. c * 2 * 2 ^ k / 360) [0..<m],
          Cc := Cc P @ map (\<lambda>k. c * 2 * 2 ^ k / (2 * pi)) [0..<m],
          Zc := Zc P @ map (\<lambda>k. [c * 2 * 2 ^ k / 2, c * 2 * 2 ^ k / 2]) [0..<m],
          Ac := Ac P @ map (\<lambda>k. c * 2 * 2 ^ k) [0..<m]\<rparr> =
       proj\<lparr>Bc := Bc proj @ ([c / 360] @ map (\<lambda>k. c * 2 * 2 ^ k / 360) [0..<m]),
          Cc := Cc proj @ ([c / (2 * pi)] @ map (\<lambda>k. c * 2 * 2 ^ k / (2 * pi)) [0..<m]),
          Zc := Zc proj @ ([[c / 2, c / 2]] @ map (\<lambda>k. [c * 2 * 2 ^ k / 2, c * 2 * 2 ^ k / 2]) [0..<m]),
          Ac := Ac proj @ ([c] @ map (\<lambda>k. c * 2 * 2 ^ k) [0..<m])\<rparr>"
      by (simp add: P_def)
    then show ?thesis
      unfolding unfold ih n b cc z a .
  qed
qed

lemma NewProjection_eq:
  "NewProjection xmin ymin xmax ymax zoomlevel =
     \<lparr>Bc = map (\<lambda>k. 256 * 2 ^ k / 360) [0..<20],
      Cc = map (\<lambda>k. 256 * 2 ^ k / (2 * pi)) [0..<20],
      Ac = map (\<lambda>k. 256 * 2 ^ k) [0..<20],
      Zc = map (\<lambda>k. [256 * 2 ^ k / 2, 256 * 2 ^ k / 2]) [0..<20],
      levels = [zoomlevel..19],
      box_xmin = xmin, box_ymin = ymin, box_xmax = xmax, box_ymax = ymax\<rparr>"
proof -
  have "nat (MAX_ZOOM_LEVEL + 1 - 0) = 20"
    by (simp add: MAX_ZOOM_LEVEL_def)
  then show ?thesis
    unfolding NewProjection_def Let_def levels_loop_eq
    by (subst tables_loop_eq) (simp_all add: MAX_ZOOM_LEVEL_def DEFAULT_TILE_SIZE_def del: upt_Suc)
qed

lemma index_map_upt:
  "0 \<le> i \<Longrightarrow> i < int n \<Longrightarrow> index (map f [0..<n]) i = Some (f (nat i))"
  by (simp add: index_def)

lemma index_map_upt_None:
  "\<not> (0 \<le> i \<and> i < int n) \<Longrightarrow> index (map f [0..<n]) i = None"
  by (simp add: index_def)


lemma project_pixels_NewProjection:
  "project_pixels (NewProjection xmin ymin xmax ymax zoomlevel) x y zoom =
     (if 0 \<le> zoom \<and> zoom \<le> 19 then Some [pixel_x zoom x, pixel_y zoom y] else None)"
proof (cases "0 \<le> zoom \<and> zoom \<le> 19")
  case True
  then have z: "0 \<le> zoom" "zoom < int 20" by simp_all
  show ?thesis
    unfolding project_pixels_def NewProjection_eq Projection.simps
      index_map_upt [OF z]
    by (simp add: True index_def pixel_x_def pixel_y_def Let_def)
next
  case False
  then have z: "\<not> (0 \<le> zoom \<and> zoom < int 20)" by auto
  show ?thesis
    unfolding project_pixels_def NewProjection_eq Projection.simps
      index_map_upt_None [OF z]
    using False by simp
qed

lemma zoom_loop_eq:
  "\<forall>zoom \<in> set ls. project_pixels proj (box_xmin proj) (box_ymax proj) zoom = Some (P0 zoom)
                   \<and> project_pixels proj (box_xmax proj) (box_ymin proj) zoom = Some (P1 zoom) \<Longrightarrow>
   zoom_loop proj ls acc =
     Some (acc @ concat (map (\<lambda>zoom. level_tiles zoom (P0 zoom) (P1 zoom)) ls))"
proof (induction ls arbitrary: acc)
  case Nil
  then show ?case by simp
next
  case (Cons zoom rest)
  then show ?case
    by (simp add: Let_def x_loop_level_tiles)
qed

lemma TileList_NewProjection:
  "0 \<le> zoomlevel \<Longrightarrow>
   TileList (NewProjection xmin ymin xmax ymax zoomlevel) =
     Some (concat (map (\<lambda>zoom. level_tiles zoom (corner0 xmin ymax zoom) (corner1 xmax ymin zoom))
                       [zoomlevel..19]))"
proof -
  assume z: "0 \<le> zoomlevel"
  let ?p = "NewProjection xmin ymin xmax ymax zoomlevel"
  have f: "levels ?p = [zoomlevel..19]" "box_xmin ?p = xmin" "box_ymax ?p = ymax"
     "box_xmax ?p = xmax" "box_ymin ?p = ymin"
    by (simp_all add: NewProjection_eq)
  have "\<forall>zoom \<in> set [zoomlevel..19].
          project_pixels ?p (box_xmin ?p) (box_ymax ?p) zoom = Some (corner0 xmin ymax zoom)
        \<and> project_pixels ?p (box_xmax ?p) (box_ymin ?p) zoom = Some (corner1 xmax ymin zoom)"
    using z by (simp add: f project_pixels_NewProjection corner0_def corner1_def)
  from zoom_loop_eq [OF this, of "[]"] show ?thesis
    by (simp add: TileList_def f)
qed

lemma TileList_NewProjection_None:
  "zoomlevel < 0 \<Longrightarrow> TileList (NewProjection xmin ymin xmax ymax zoomlevel) = None"
proof -
  assume z: "zoomlevel < 0"
  let ?p = "NewProjection xmin ymin xmax ymax zoomlevel"
  have l: "levels ?p = zoomlevel # [zoomlevel + 1..19]"
    using z by (simp add: NewProjection_eq upto_rec1)
  have "project_pixels ?p (box_xmin ?p) (box_ymax ?p) zoomlevel = None"
    using z by (simp add: project_pixels_NewProjection)
  then show ?thesis
    unfolding TileList_def l by (rule zoom_loop_None [OF disjI1])
qed

section \<open>Rounding\<close>

lemma Round_neg: "v < 0 \<Longrightarrow> Round v = of_int \<lceil>v - 1 / 2\<rceil>"
  by (simp add: Round_def)

lemma Round_nonneg: "0 \<le> v \<Longrightarrow> Round v = of_int \<lfloor>v + 1 / 2\<rfloor>"
  by (simp add: Round_def)












section \<open>Order and uniqueness of the tile list\<close>

lemma mkTile_eq_iff [simp]:
  "mkTile z x y = mkTile z' x' y' \<longleftrightarrow> z = z' \<and> x = x' \<and> y = y'"
  by (simp add: mkTile_def)

lemma mkTile_sel [simp]:
  "tile_z (mkTile z x y) = z" "tile_x (mkTile z x y) = x" "tile_y (mkTile z x y) = y"
  "Content (mkTile z x y) = []"
  by (simp_all add: mkTile_def)

lemma in_level_tiles:
  "t \<in> set (level_tiles zoom px0 px1) \<longleftrightarrow>
     (\<exists>x y. t = mkTile zoom x y
        \<and> xrangeStart px0 \<le> x \<and> x \<le> xrangeEnd px1 \<and> kept (2 powi zoom) x
        \<and> yrangeStart px0 \<le> y \<and> y \<le> yrangeEnd px1 \<and> kept (2 powi zoom) y)"
  by (auto simp: level_tiles_def)

lemma level_tiles_zoom: "t \<in> set (level_tiles zoom px0 px1) \<Longrightarrow> tile_z t = zoom"
  by (auto simp: in_level_tiles)

lemma sorted_wrt_concat_map:
  assumes "sorted_wrt Q xs"
    and "\<And>x. x \<in> set xs \<Longrightarrow> sorted_wrt P (f x)"
    and "\<And>x y a b. Q x y \<Longrightarrow> a \<in> set (f x) \<Longrightarrow> b \<in> set (f y) \<Longrightarrow> P a b"
  shows "sorted_wrt P (concat (map f xs))"
  using assms
proof (induction xs)
  case Nil
  then show ?case by simp
next
  case (Cons x xs)
  then show ?case
    by (auto simp: sorted_wrt_append)
qed

lemma sorted_level_tiles: "sorted_wrt tile_less (level_tiles zoom px0 px1)"
  unfolding level_tiles_def
proof (rule sorted_wrt_concat_map [where Q = "(<)"])
  show "sorted_wrt (<) (filter (kept (2 powi zoom)) [xrangeStart px0..xrangeEnd px1])"
    by (simp add: sorted_wrt_filter)
next
  fix x
  have "sorted_wrt (<) (filter (kept (2 powi zoom)) [yrangeStart px0..yrangeEnd px1])"
    by (simp add: sorted_wrt_filter)
  then show "sorted_wrt tile_less
          (map (mkTile zoom x) (filter (kept (2 powi zoom)) [yrangeStart px0..yrangeEnd px1]))"
    by (simp add: sorted_wrt_map tile_less_def)
next
  fix x x' :: int and a b
  assume "x < x'"
    and "a \<in> set (map (mkTile zoom x) (filter (kept (2 powi zoom)) [yrangeStart px0..yrangeEnd px1]))"
    and "b \<in> set (map (mkTile zoom x') (filter (kept (2 powi zoom)) [yrangeStart px0..yrangeEnd px1]))"
  then show "tile_less a b"
    by (auto simp: tile_less_def)
qed

lemma sorted_levels_tiles:
  assumes "sorted_wrt (<) ls"
  shows "sorted_wrt tile_less (concat (map (\<lambda>zoom. level_tiles zoom (P0 zoom) (P1 zoom)) ls))"
proof (rule sorted_wrt_concat_map [where Q = "(<)"])
  show "sorted_wrt (<) ls" by (rule assms)
next
  fix zoom
  show "sorted_wrt tile_less (level_tiles zoom (P0 zoom) (P1 zoom))"
    by (rule sorted_level_tiles)
next
  fix z z' :: int and a b
  assume "z < z'" "a \<in> set (level_tiles z (P0 z) (P1 z))" "b \<in> set (level_tiles z' (P0 z') (P1 z'))"
  then show "tile_less a b"
    by (auto simp: tile_less_def dest!: level_tiles_zoom)
qed

lemma tile_less_irrefl: "\<not> tile_less t t"
  by (simp add: tile_less_def)

lemma sorted_wrt_tile_less_distinct: "sorted_wrt tile_less ts \<Longrightarrow> distinct ts"
  by (induction ts) (auto simp: tile_less_irrefl)

lemma TileList_NewProjection_Some:
  assumes "TileList (NewProjection xmin ymin xmax ymax zoomlevel) = Some ts"
  shows "0 \<le> zoomlevel"
    and "ts = concat (map (\<lambda>zoom. level_tiles zoom (corner0 xmin ymax zoom) (corner1 xmax ymin zoom))
                          [zoomlevel..19])"
proof -
  show z: "0 \<le> zoomlevel"
  proof (rule ccontr)
    assume "\<not> 0 \<le> zoomlevel"
    then have "TileList (NewProjection xmin ymin xmax ymax zoomlevel) = None"
      by (simp add: TileList_NewProjection_None)
    with assms show False by simp
  qed
  from TileList_NewProjection [OF z, of xmin ymin xmax ymax] assms
  show "ts = concat (map (\<lambda>zoom. level_tiles zoom (corner0 xmin ymax zoom) (corner1 xmax ymin zoom))
                          [zoomlevel..19])"
    by simp
qed

text \<open>
  C3. For every bounding box and requested zoom, the list that \<open>TileList\<close> returns is in
  ascending order of zoom, then column, then row, strictly, and so holds no tile twice.
  (For a negative requested zoom the call panics and returns no list.)
\<close>

theorem C3_TileList_sorted_distinct:
  assumes "TileList (NewProjection xmin ymin xmax ymax zoomlevel) = Some ts"
  shows "sorted_wrt tile_less ts \<and> distinct ts"
proof -
  have "sorted_wrt tile_less ts"
    unfolding TileList_NewProjection_Some(2) [OF assms]
    by (rule sorted_levels_tiles) simp
  then show ?thesis
    by (simp add: sorted_wrt_tile_less_distinct)
qed

text \<open>A box of two columns and one row at zoom 19.\<close>

lemma TileList_two_columns:
  "TileList (NewProjection 0 0 0.001 0 19) = Some [mkTile 19 262144 262144, mkTile 19 262145 262144]"
  apply (subst TileList_NewProjection)
  apply simp
  apply (simp add: level_tiles_def corner0_def corner1_def pixel_x_def pixel_y_def Round_def minMax_def DEG_TO_RAD_def
    xrangeStart_def xrangeEnd_def yrangeStart_def yrangeEnd_def int_of_float64_def towards_zero_def DEFAULT_TILE_SIZE_def kept_def upto_rec1)
  done

theorem C3_TileList_sorted_distinct_witness:
  "TileList (NewProjection 0 0 0.001 0 19) = Some [mkTile 19 262144 262144, mkTile 19 262145 262144]
   \<and> sorted_wrt tile_less [mkTile 19 262144 262144, mkTile 19 262145 262144]
   \<and> distinct [mkTile 19 262144 262144, mkTile 19 262145 262144]"
  using C3_TileList_sorted_distinct [OF TileList_two_columns] TileList_two_columns
  by simp

section \<open>The clip\<close>

lemma project_pixels_zoom: "project_pixels proj x y zoom = Some px \<Longrightarrow> 0 \<le> zoom"
  by (auto simp: project_pixels_def index_def split: Option.bind_splits if_splits)

lemma kept_nonneg_zoom:
  "0 \<le> zoom \<Longrightarrow> kept (2 powi zoom) i \<longleftrightarrow> 0 \<le> i \<and> i \<le> 2 ^ nat zoom"
proof -
  assume z: "0 \<le> zoom"
  have "real_of_int i \<le> 2 ^ nat zoom \<longleftrightarrow> i \<le> 2 ^ nat zoom"
    using of_int_le_iff [of i "2 ^ nat zoom", where ?'a = real] by simp
  then show ?thesis
    using z by (auto simp: kept_def power_int_nonneg_exp not_less)
qed

lemma NewProjection_fields:
  "levels (NewProjection xmin ymin xmax ymax zoomlevel) = [zoomlevel..19]"
  "box_xmin (NewProjection xmin ymin xmax ymax zoomlevel) = xmin"
  "box_ymin (NewProjection xmin ymin xmax ymax zoomlevel) = ymin"
  "box_xmax (NewProjection xmin ymin xmax ymax zoomlevel) = xmax"
  "box_ymax (NewProjection xmin ymin xmax ymax zoomlevel) = ymax"
  by (simp_all add: NewProjection_eq)

lemma TileList_Some:
  assumes "TileList proj = Some ts"
  shows "ts = concat (map (\<lambda>zoom. level_tiles zoom
                 (the (project_pixels proj (box_xmin proj) (box_ymax proj) zoom))
                 (the (project_pixels proj (box_xmax proj) (box_ymin proj) zoom))) (levels proj))"
  using zoom_loop_Some [of proj "levels proj" "[]" ts] assms
  by (simp add: TileList_def)

text \<open>
  C4. At a zoom level of the list, a candidate (a column and a row inside the index bounds
  of that level) is left out of the result exactly when the column or the row is negative
  or strictly greater than \<open>2^z\<close>; so the index \<open>2^z\<close> itself is kept.
\<close>

theorem C4_clip_discards_exactly:
  assumes "TileList proj = Some ts"
    and "zoom \<in> set (levels proj)"
    and "project_pixels proj (box_xmin proj) (box_ymax proj) zoom = Some px0"
    and "project_pixels proj (box_xmax proj) (box_ymin proj) zoom = Some px1"
    and "xrangeStart px0 \<le> x" and "x \<le> xrangeEnd px1"
    and "yrangeStart px0 \<le> y" and "y \<le> yrangeEnd px1"
  shows "mkTile zoom x y \<notin> set ts \<longleftrightarrow> (x < 0 \<or> 2 ^ nat zoom < x \<or> y < 0 \<or> 2 ^ nat zoom < y)"
proof -
  have z: "0 \<le> zoom"
    using assms(3) by (rule project_pixels_zoom)
  have "mkTile zoom x y \<in> set ts \<longleftrightarrow> mkTile zoom x y \<in> set (level_tiles zoom px0 px1)"
    unfolding TileList_Some [OF assms(1)]
    using assms(2-4) by (auto simp: in_level_tiles)
  also have "\<dots> \<longleftrightarrow> kept (2 powi zoom) x \<and> kept (2 powi zoom) y"
    using assms(5-8) by (auto simp: in_level_tiles)
  finally show ?thesis
    by (auto simp: kept_nonneg_zoom [OF z])
qed

lemma corners_east_edge:
  "corner0 0 0 19 = [67108864, 67108864]" "corner1 180 0 19 = [134217728, 67108864]"
  by (simp_all add: corner0_def corner1_def pixel_x_def pixel_y_def Round_def minMax_def DEG_TO_RAD_def)

theorem C4_clip_discards_exactly_witness:
  "TileList (NewProjection 0 0 180 0 19) \<noteq> None
   \<and> xrangeStart [67108864, 67108864] \<le> 2 ^ 19 \<and> 2 ^ 19 \<le> xrangeEnd [134217728, 67108864]
   \<and> yrangeStart [67108864, 67108864] \<le> 2 ^ 18 \<and> 2 ^ 18 \<le> yrangeEnd [134217728, 67108864]
   \<and> mkTile 19 (2 ^ 19) (2 ^ 18) \<in> set (the (TileList (NewProjection 0 0 180 0 19)))"
proof -
  let ?p = "NewProjection 0 0 180 0 19"
  obtain ts where ts: "TileList ?p = Some ts"
    using TileList_NewProjection [of 19 0 0 180 0] by simp
  have l: "19 \<in> set (levels ?p)"
    by (simp add: NewProjection_fields)
  have p0: "project_pixels ?p (box_xmin ?p) (box_ymax ?p) 19 = Some [67108864, 67108864]"
    using corners_east_edge by (simp add: project_pixels_NewProjection NewProjection_fields corner0_def)
  have p1: "project_pixels ?p (box_xmax ?p) (box_ymin ?p) 19 = Some [134217728, 67108864]"
    using corners_east_edge by (simp add: project_pixels_NewProjection NewProjection_fields corner1_def)
  have b: "xrangeStart [67108864, 67108864] \<le> 2 ^ 19" "2 ^ 19 \<le> xrangeEnd [134217728, 67108864]"
    "yrangeStart [67108864, 67108864] \<le> 2 ^ 18" "2 ^ 18 \<le> yrangeEnd [134217728, 67108864]"
    by (simp_all add: xrangeStart_def xrangeEnd_def yrangeStart_def yrangeEnd_def
        int_of_float64_def towards_zero_def DEFAULT_TILE_SIZE_def)
  from C4_clip_discards_exactly [OF ts l p0 p1 b] ts b show ?thesis
    by simp
qed

section \<open>The grid bound\<close>

lemma Round_mono: "v \<le> w \<Longrightarrow> Round v \<le> Round w"
proof -
  assume vw: "v \<le> w"
  consider "w < 0" | "v < 0" "0 \<le> w" | "0 \<le> v"
    by linarith
  then show ?thesis
  proof cases
    case 1
    with vw have "\<lceil>v - 0.5\<rceil> \<le> \<lceil>w - 0.5\<rceil>"
      by (intro ceiling_mono) simp
    with 1 vw show ?thesis
      by (simp add: Round_def)
  next
    case 2
    have "\<lceil>v - 0.5\<rceil> \<le> 0"
      using 2 by (simp add: ceiling_le_iff)
    moreover have "0 \<le> \<lfloor>w + 0.5\<rfloor>"
      using 2 by (simp add: le_floor_iff)
    ultimately have "\<lceil>v - 0.5\<rceil> \<le> \<lfloor>w + 0.5\<rfloor>"
      by linarith
    with 2 show ?thesis
      by (simp add: Round_def)
  next
    case 3
    with vw have "\<lfloor>v + 0.5\<rfloor> \<le> \<lfloor>w + 0.5\<rfloor>"
      by (intro floor_mono) simp
    with 3 vw show ?thesis
      by (simp add: Round_def)
  qed
qed

lemma Round_of_nat: "Round (of_nat n) = of_nat n"
proof -
  have "\<lfloor>real n + 0.5\<rfloor> = int n"
    by (rule floor_unique) simp_all
  then show ?thesis
    by (simp add: Round_def)
qed

lemma minMax_sign:
  "0 \<le> s \<Longrightarrow> 0 \<le> minMax s (- 0.9999) 0.9999 \<and> minMax s (- 0.9999) 0.9999 < 1"
  "s \<le> 0 \<Longrightarrow> minMax s (- 0.9999) 0.9999 \<le> 0 \<and> - 1 < minMax s (- 0.9999) 0.9999"
  by (simp_all add: minMax_def Let_def min_def max_def)

lemma pixel_y_north: 
  assumes "0 \<le> sin (DEG_TO_RAD * y)"
  shows "pixel_y zoom y \<le> 128 * 2 ^ nat zoom"
proof -
  define f where "f = minMax (sin (DEG_TO_RAD * y)) (- 0.9999) 0.9999"
  have f: "0 \<le> f" "f < 1"
    using minMax_sign(1) [OF assms] by (simp_all add: f_def)
  then have "1 \<le> (1 + f) / (1 - f)"
    by (simp add: le_divide_eq)
  then have "0 \<le> ln ((1 + f) / (1 - f))"
    by simp
  then have "0 \<le> 0.5 * ln ((1 + f) / (1 - f)) * (256 * 2 ^ nat zoom / (2 * pi))"
    by simp
  then have "256 * 2 ^ nat zoom / 2 + 0.5 * ln ((1 + f) / (1 - f)) * - (256 * 2 ^ nat zoom / (2 * pi))
          \<le> real (128 * 2 ^ nat zoom)"
    by simp
  from Round_mono [OF this] show ?thesis
    unfolding pixel_y_def Let_def f_def [symmetric] Round_of_nat by simp
qed

lemma pixel_y_south: 
  assumes "sin (DEG_TO_RAD * y) \<le> 0"
  shows "128 * 2 ^ nat zoom \<le> pixel_y zoom y"
proof -
  define f where "f = minMax (sin (DEG_TO_RAD * y)) (- 0.9999) 0.9999"
  have f: "f \<le> 0" "- 1 < f"
    using minMax_sign(2) [OF assms] by (simp_all add: f_def)
  then have "(1 + f) / (1 - f) \<le> 1" "0 < (1 + f) / (1 - f)"
    by (simp_all add: divide_le_eq)
  then have "ln ((1 + f) / (1 - f)) \<le> 0"
    by simp
  then have "0.5 * ln ((1 + f) / (1 - f)) \<le> 0"
    by simp
  moreover have "0 \<le> 256 * 2 ^ nat zoom / (2 * pi)"
    by simp
  ultimately have "0.5 * ln ((1 + f) / (1 - f)) * (256 * 2 ^ nat zoom / (2 * pi)) \<le> 0"
    by (rule mult_nonpos_nonneg)
  then have "real (128 * 2 ^ nat zoom)
     \<le> 256 * 2 ^ nat zoom / 2 + 0.5 * ln ((1 + f) / (1 - f)) * - (256 * 2 ^ nat zoom / (2 * pi))"
    by simp
  from Round_mono [OF this] show ?thesis
    unfolding pixel_y_def Let_def f_def [symmetric] Round_of_nat by simp
qed

lemma sin_85: "0 \<le> sin (DEG_TO_RAD * 85)" "sin (DEG_TO_RAD * (- 85)) \<le> 0"
proof -
  have "0 < sin (pi / 180 * 85)"
    by (rule sin_gt_zero) (simp_all add: pi_gt_zero)
  then show "0 \<le> sin (DEG_TO_RAD * 85)" "sin (DEG_TO_RAD * (- 85)) \<le> 0"
    by (simp_all add: DEG_TO_RAD_def)
qed

lemma Round_of_int: "Round (of_int n) = of_int n"
proof -
  have "\<lfloor>real_of_int n + 0.5\<rfloor> = n"
    by (rule floor_unique) simp_all
  moreover have "\<lceil>real_of_int n - 0.5\<rceil> = n"
    by (rule ceiling_unique) simp_all
  ultimately show ?thesis
    by (simp add: Round_def)
qed

lemma ln_ratio_bound:
  assumes "- 0.9999 \<le> f" and "f \<le> (0.9999 :: real)"
  shows "\<bar>ln ((1 + f) / (1 - f))\<bar> \<le> 19998"
proof -
  define t where "t = (1 + f) / (1 - f)"
  have t: "0 < t" "t \<le> 19999" "1 / t \<le> 19999"
    using assms by (simp_all add: t_def divide_le_eq)
  have "ln t \<le> t - 1"
    using t(1) by (rule ln_le_minus_one)
  moreover have "ln (1 / t) \<le> 1 / t - 1"
    using t(1) by (intro ln_le_minus_one) simp
  moreover have "ln (1 / t) = - ln t"
    using t(1) by (simp add: ln_div)
  ultimately show ?thesis
    using t(2,3) unfolding t_def [symmetric] by linarith
qed

lemma pixel_y_range: "\<bar>pixel_y zoom y\<bar> \<le> 2501 * (256 * 2 ^ nat zoom)"
proof -
  define f where "f = minMax (sin (DEG_TO_RAD * y)) (- 0.9999) 0.9999"
  define L where "L = ln ((1 + f) / (1 - f))"
  define c :: real where "c = 256 * 2 ^ nat zoom"
  define k where "k = c / (2 * pi)"
  have "- 0.9999 \<le> f" "f \<le> 0.9999"
    by (simp_all add: f_def minMax_def Let_def min_def max_def)
  then have L: "\<bar>L\<bar> \<le> 19998"
    unfolding L_def by (rule ln_ratio_bound)
  have c: "0 \<le> c"
    by (simp add: c_def)
  have "4 \<le> 2 * pi"
    using pi_ge_two by simp
  then have "c / (2 * pi) \<le> c / 4"
    using c by (intro divide_left_mono) simp_all
  then have k: "0 \<le> k" "k \<le> c / 4"
    using c by (simp_all add: k_def)
  have "\<bar>L * k\<bar> \<le> 19998 * (c / 4)"
    unfolding abs_mult using L k by (intro mult_mono) simp_all
  then have v: "- (2501 * c) \<le> c / 2 + 0.5 * L * - k" "c / 2 + 0.5 * L * - k \<le> 2501 * c"
    using c by (simp_all add: abs_le_iff)
  have i: "2501 * c = real_of_int (2501 * (256 * 2 ^ nat zoom))"
    by (simp add: c_def)
  have "Round (- (2501 * c)) \<le> Round (c / 2 + 0.5 * L * - k)"
    "Round (c / 2 + 0.5 * L * - k) \<le> Round (2501 * c)"
    by (rule Round_mono, rule v(1)) (rule Round_mono, rule v(2))
  moreover have "Round (2501 * c) = 2501 * c"
    unfolding i by (rule Round_of_int)
  moreover have "Round (- (2501 * c)) = - (2501 * c)"
    using Round_of_int [of "- (2501 * (256 * 2 ^ nat zoom))"] by (simp add: c_def)
  ultimately have "\<bar>Round (c / 2 + 0.5 * L * - k)\<bar> \<le> 2501 * c"
    by (simp add: abs_le_iff)
  moreover have "pixel_y zoom y = Round (c / 2 + 0.5 * L * - k)"
    by (simp add: pixel_y_def Let_def f_def L_def c_def k_def)
  ultimately have "\<bar>pixel_y zoom y\<bar> \<le> 2501 * c"
    by (simp only:)
  then show ?thesis
    by (simp only: c_def)
qed

lemma int_of_float64_sign:
  "- (2 ^ 63) \<le> r \<Longrightarrow> r < 1 \<Longrightarrow> int_of_float64 r \<le> 0"
  "0 \<le> r \<Longrightarrow> r < 2 ^ 63 \<Longrightarrow> 0 \<le> int_of_float64 r"
  by (auto simp: int_of_float64_def towards_zero_def ceiling_le_iff floor_le_iff le_floor_iff)

text \<open>
  C1 asks that every emitted tile has \<open>0 \<le> column < 2^z\<close> and \<open>0 \<le> row < 2^z\<close>. For the
  box of the whole world, west \<open>-180\<close>, south \<open>-85\<close>, east \<open>180\<close>, north \<open>85\<close>, from zoom 0,
  \<open>TileList\<close> returns a list that holds the tile of zoom 0, column 1, row 0: the column is
  \<open>2^0\<close>, one past the grid of that level.
\<close>

theorem C1_whole_world_column_past_grid:
  "TileList (NewProjection (- 180) (- 85) 180 85 0) \<noteq> None
   \<and> mkTile 0 1 0 \<in> set (the (TileList (NewProjection (- 180) (- 85) 180 85 0)))
   \<and> \<not> tile_x (mkTile 0 1 0) < 2 ^ nat (tile_z (mkTile 0 1 0))"
proof -
  have x: "pixel_x 0 (- 180) = 0" "pixel_x 0 180 = 256"
    by (simp_all add: pixel_x_def Round_def)
  have "pixel_y 0 85 \<le> 128" "128 \<le> pixel_y 0 (- 85)"
    using pixel_y_north [OF sin_85(1), of 0] pixel_y_south [OF sin_85(2), of 0] by simp_all
  moreover have "- 640256 \<le> pixel_y 0 85" "pixel_y 0 (- 85) \<le> 640256"
    using pixel_y_range [of 0 85] pixel_y_range [of 0 "- 85"] by (simp_all add: abs_le_iff)
  ultimately have "int_of_float64 (pixel_y 0 85 / 256) \<le> 0"
    "0 \<le> int_of_float64 (pixel_y 0 (- 85) / 256)"
    by (intro int_of_float64_sign; simp)+
  then have y: "yrangeStart (corner0 (- 180) 85 0) \<le> 0" "0 \<le> yrangeEnd (corner1 180 (- 85) 0)"
    by (simp_all add: yrangeStart_def yrangeEnd_def corner0_def corner1_def DEFAULT_TILE_SIZE_def)
  have "mkTile 0 1 0 \<in> set (level_tiles 0 (corner0 (- 180) 85 0) (corner1 180 (- 85) 0))"
    unfolding in_level_tiles
    using y by (simp add: x xrangeStart_def xrangeEnd_def corner0_def corner1_def
        DEFAULT_TILE_SIZE_def int_of_float64_def towards_zero_def kept_def)
  then have "mkTile 0 1 0 \<in> set (concat (map (\<lambda>zoom. level_tiles zoom (corner0 (- 180) 85 zoom)
      (corner1 180 (- 85) zoom)) [0..19]))"
    by (simp add: upto_rec1 [of 0 19])
  then show ?thesis
    by (simp add: TileList_NewProjection del: set_concat)
qed

section \<open>The zoom levels of the result\<close>

lemma level_tiles_empty_iff:
  "level_tiles zoom px0 px1 \<noteq> [] \<longleftrightarrow>
     (\<exists>x. xrangeStart px0 \<le> x \<and> x \<le> xrangeEnd px1 \<and> kept (2 powi zoom) x)
   \<and> (\<exists>y. yrangeStart px0 \<le> y \<and> y \<le> yrangeEnd px1 \<and> kept (2 powi zoom) y)"
proof -
  have "level_tiles zoom px0 px1 \<noteq> [] \<longleftrightarrow> (\<exists>t. t \<in> set (level_tiles zoom px0 px1))"
    by (cases "level_tiles zoom px0 px1") auto
  then show ?thesis
    unfolding in_level_tiles by blast
qed

lemma zooms_of_levels:
  "tile_z ` set (concat (map (\<lambda>zoom. level_tiles zoom (P0 zoom) (P1 zoom)) ls)) =
     {zoom \<in> set ls. level_tiles zoom (P0 zoom) (P1 zoom) \<noteq> []}"
proof (intro set_eqI iffI)
  fix z
  assume "z \<in> tile_z ` set (concat (map (\<lambda>zoom. level_tiles zoom (P0 zoom) (P1 zoom)) ls))"
  then obtain t zoom where "zoom \<in> set ls" "t \<in> set (level_tiles zoom (P0 zoom) (P1 zoom))"
    "z = tile_z t"
    by auto
  then show "z \<in> {zoom \<in> set ls. level_tiles zoom (P0 zoom) (P1 zoom) \<noteq> []}"
    using level_tiles_zoom [of t zoom] by auto
next
  fix z
  assume "z \<in> {zoom \<in> set ls. level_tiles zoom (P0 zoom) (P1 zoom) \<noteq> []}"
  then obtain t where "z \<in> set ls" "t \<in> set (level_tiles z (P0 z) (P1 z))"
    by (cases "level_tiles z (P0 z) (P1 z)") auto
  then show "z \<in> tile_z ` set (concat (map (\<lambda>zoom. level_tiles zoom (P0 zoom) (P1 zoom)) ls))"
    using level_tiles_zoom [of t z] by force
qed

text \<open>
  C5. For a requested zoom \<open>z0\<close> with \<open>0 \<le> z0 \<le> 19\<close> the projection lists every level from
  \<open>z0\<close> to 19, \<open>TileList\<close> returns, and the zoom levels of the tiles it returns are exactly
  the levels \<open>z\<close> from \<open>z0\<close> to 19 at which some column and some row of the index bounds
  pass the clip (are between 0 and \<open>2^z\<close>).
\<close>

theorem C5_full_pyramid_from_zoom:
  assumes "0 \<le> z0" and "z0 \<le> 19"
  shows "levels (NewProjection xmin ymin xmax ymax z0) = [z0..19]
    \<and> TileList (NewProjection xmin ymin xmax ymax z0) \<noteq> None
    \<and> tile_z ` set (the (TileList (NewProjection xmin ymin xmax ymax z0))) =
        {z. z0 \<le> z \<and> z \<le> 19 \<and>
          (\<exists>px0 px1.
              project_pixels (NewProjection xmin ymin xmax ymax z0) xmin ymax z = Some px0
            \<and> project_pixels (NewProjection xmin ymin xmax ymax z0) xmax ymin z = Some px1
            \<and> (\<exists>x. xrangeStart px0 \<le> x \<and> x \<le> xrangeEnd px1 \<and> 0 \<le> x \<and> x \<le> 2 ^ nat z)
            \<and> (\<exists>y. yrangeStart px0 \<le> y \<and> y \<le> yrangeEnd px1 \<and> 0 \<le> y \<and> y \<le> 2 ^ nat z))}"
proof -
  let ?p = "NewProjection xmin ymin xmax ymax z0"
  let ?L = "\<lambda>zoom. level_tiles zoom (corner0 xmin ymax zoom) (corner1 xmax ymin zoom)"
  have t: "TileList ?p = Some (concat (map ?L [z0..19]))"
    using assms(1) by (rule TileList_NewProjection)
  have "tile_z ` set (concat (map ?L [z0..19])) = {zoom \<in> set [z0..19]. ?L zoom \<noteq> []}"
    by (rule zooms_of_levels)
  also have "\<dots> = {z. z0 \<le> z \<and> z \<le> 19 \<and>
          (\<exists>px0 px1. project_pixels ?p xmin ymax z = Some px0
            \<and> project_pixels ?p xmax ymin z = Some px1
            \<and> (\<exists>x. xrangeStart px0 \<le> x \<and> x \<le> xrangeEnd px1 \<and> 0 \<le> x \<and> x \<le> 2 ^ nat z)
            \<and> (\<exists>y. yrangeStart px0 \<le> y \<and> y \<le> yrangeEnd px1 \<and> 0 \<le> y \<and> y \<le> 2 ^ nat z))}"
    using assms(1)
    by (auto simp: level_tiles_empty_iff project_pixels_NewProjection kept_nonneg_zoom
        corner0_def corner1_def)
  finally show ?thesis
    by (simp add: t NewProjection_fields)
qed

theorem C5_full_pyramid_from_zoom_witness:
  "(0::int) \<le> 18 \<and> (18::int) \<le> 19
   \<and> levels (NewProjection 0 0 0 0 18) = [18, 19]
   \<and> TileList (NewProjection 0 0 0 0 18) = Some [mkTile 18 131072 131072, mkTile 19 262144 262144]
   \<and> tile_z ` set (the (TileList (NewProjection 0 0 0 0 18))) = {18, 19}"
proof -
  have t: "TileList (NewProjection 0 0 0 0 18) = Some [mkTile 18 131072 131072, mkTile 19 262144 262144]"
    by (subst TileList_NewProjection)
      (simp_all add: level_tiles_def corner0_def corner1_def pixel_x_def pixel_y_def Round_def
        minMax_def DEG_TO_RAD_def xrangeStart_def xrangeEnd_def yrangeStart_def yrangeEnd_def
        int_of_float64_def towards_zero_def DEFAULT_TILE_SIZE_def kept_def upto_rec1)
  from C5_full_pyramid_from_zoom [of 18 0 0 0 0] t show ?thesis
    by (simp add: upto_rec1)
qed

section \<open>The index bounds\<close>

text \<open>
  C7 as stated (the bounds are \<open>floor(px / 256)\<close>, also for negative \<open>px\<close>) fails: with the
  west edge at longitude \<open>-181\<close> the left top corner projects to the pixel column \<open>-1\<close> at
  zoom 0, and the column bound is \<open>int(-1 / 256) = 0\<close>, while \<open>floor(-1 / 256) = -1\<close>.
\<close>

theorem C7_floor_counterexample:
  "project_pixels (NewProjection (- 181) 0 0 0 0) (- 181) 0 0 = Some [- 1, 128]
   \<and> xrangeStart [- 1, 128] = 0
   \<and> \<lfloor>[- 1, 128 :: real] ! 0 / 256\<rfloor> = - 1"
proof -
  have "\<lceil>- (1 / 256 :: real)\<rceil> = 0"
    by (rule ceiling_unique) simp_all
  then have "xrangeStart [- 1, 128] = 0"
    by (simp add: xrangeStart_def int_of_float64_def towards_zero_def DEFAULT_TILE_SIZE_def)
  moreover have "project_pixels (NewProjection (- 181) 0 0 0 0) (- 181) 0 0 = Some [- 1, 128]"
    by (simp add: project_pixels_NewProjection pixel_x_def pixel_y_def Round_def minMax_def
        DEG_TO_RAD_def)
  moreover have "\<lfloor>[- 1, 128 :: real] ! 0 / 256\<rfloor> = - 1"
    by simp
  ultimately show ?thesis
    by (simp only: simp_thms)
qed

lemma filter_zoom_levels:
  assumes "distinct ls" and "zoom \<in> set ls"
  shows "filter (\<lambda>t. tile_z t = zoom) (concat (map (\<lambda>z. level_tiles z (P0 z) (P1 z)) ls)) =
           level_tiles zoom (P0 zoom) (P1 zoom)"
  using assms
proof (induction ls)
  case Nil
  then show ?case by simp
next
  case (Cons z ls)
  have same: "filter (\<lambda>t. tile_z t = zoom) (level_tiles zoom (P0 zoom) (P1 zoom)) =
      level_tiles zoom (P0 zoom) (P1 zoom)"
    by (simp add: level_tiles_zoom)
  have other: "filter (\<lambda>t. tile_z t = zoom) (level_tiles z' (P0 z') (P1 z')) = []" if "z' \<noteq> zoom" for z'
    using that by (auto simp: filter_empty_conv dest: level_tiles_zoom)
  have rest: "filter (\<lambda>t. tile_z t = zoom) (concat (map (\<lambda>z. level_tiles z (P0 z) (P1 z)) ls)) = []"
    if "zoom \<notin> set ls"
    using that by (auto simp: filter_empty_conv dest: level_tiles_zoom)
  show ?case
  proof (cases "z = zoom")
    case True
    with Cons.prems have "zoom \<notin> set ls" by simp
    with True show ?thesis
      by (simp add: same rest)
  next
    case False
    with Cons.prems have "distinct ls" "zoom \<in> set ls" by simp_all
    with False Cons.IH show ?thesis
      by (simp add: other)
  qed
qed

lemma kept_eq: "0 \<le> zoom \<Longrightarrow> kept (2 powi zoom) = (\<lambda>i. 0 \<le> i \<and> i \<le> 2 ^ nat zoom)"
  by (rule ext) (rule kept_nonneg_zoom)

lemma int_of_float64_in_range:
  "\<bar>px / 256\<bar> < 2 ^ 63 \<Longrightarrow>
   int_of_float64 (px / DEFAULT_TILE_SIZE) = (if px < 0 then \<lceil>px / 256\<rceil> else \<lfloor>px / 256\<rfloor>)"
  by (simp add: int_of_float64_def towards_zero_def DEFAULT_TILE_SIZE_def divide_less_0_iff
      abs_less_iff)

text \<open>
  C7, amended. At a zoom level of the list, when the quotients \<open>px / 256\<close> of the four
  projected corner coordinates are within the range of a 64-bit integer, the index bounds
  of the enumerator are these quotients with the fraction discarded, \<open>floor(px / 256)\<close> for
  \<open>px \<ge> 0\<close> and \<open>ceil(px / 256)\<close> for \<open>px < 0\<close>, and the tiles of that level in the result of
  \<open>TileList\<close> are the columns from the column start to the column end, each with the rows
  from the row start to the row end, less the indices that the clip discards.
\<close>

theorem C7_bounds_truncate_towards_zero:
  assumes "TileList (NewProjection xmin ymin xmax ymax zoomlevel) = Some ts"
    and "zoomlevel \<le> zoom" and "zoom \<le> 19"
    and "project_pixels (NewProjection xmin ymin xmax ymax zoomlevel) xmin ymax zoom = Some px0"
    and "project_pixels (NewProjection xmin ymin xmax ymax zoomlevel) xmax ymin zoom = Some px1"
    and "\<bar>px0 ! 0 / 256\<bar> < 2 ^ 63" and "\<bar>px1 ! 0 / 256\<bar> < 2 ^ 63"
    and "\<bar>px0 ! 1 / 256\<bar> < 2 ^ 63" and "\<bar>px1 ! 1 / 256\<bar> < 2 ^ 63"
  shows "xrangeStart px0 = (if px0 ! 0 < 0 then \<lceil>px0 ! 0 / 256\<rceil> else \<lfloor>px0 ! 0 / 256\<rfloor>)
   \<and> xrangeEnd px1 = (if px1 ! 0 < 0 then \<lceil>px1 ! 0 / 256\<rceil> else \<lfloor>px1 ! 0 / 256\<rfloor>)
   \<and> yrangeStart px0 = (if px0 ! 1 < 0 then \<lceil>px0 ! 1 / 256\<rceil> else \<lfloor>px0 ! 1 / 256\<rfloor>)
   \<and> yrangeEnd px1 = (if px1 ! 1 < 0 then \<lceil>px1 ! 1 / 256\<rceil> else \<lfloor>px1 ! 1 / 256\<rfloor>)
   \<and> filter (\<lambda>t. tile_z t = zoom) ts =
       concat (map (\<lambda>x. map (mkTile zoom x)
                            (filter (\<lambda>y. 0 \<le> y \<and> y \<le> 2 ^ nat zoom)
                               [yrangeStart px0..yrangeEnd px1]))
                   (filter (\<lambda>x. 0 \<le> x \<and> x \<le> 2 ^ nat zoom)
                      [xrangeStart px0..xrangeEnd px1]))"
proof -
  have z: "0 \<le> zoom"
    using assms(4) by (rule project_pixels_zoom)
  have c0: "corner0 xmin ymax zoom = px0" and c1: "corner1 xmax ymin zoom = px1"
    using assms(3-5) z by (simp_all add: project_pixels_NewProjection corner0_def corner1_def)
  have b: "xrangeStart px0 = (if px0 ! 0 < 0 then \<lceil>px0 ! 0 / 256\<rceil> else \<lfloor>px0 ! 0 / 256\<rfloor>)"
    "xrangeEnd px1 = (if px1 ! 0 < 0 then \<lceil>px1 ! 0 / 256\<rceil> else \<lfloor>px1 ! 0 / 256\<rfloor>)"
    "yrangeStart px0 = (if px0 ! 1 < 0 then \<lceil>px0 ! 1 / 256\<rceil> else \<lfloor>px0 ! 1 / 256\<rfloor>)"
    "yrangeEnd px1 = (if px1 ! 1 < 0 then \<lceil>px1 ! 1 / 256\<rceil> else \<lfloor>px1 ! 1 / 256\<rfloor>)"
    unfolding xrangeStart_def xrangeEnd_def yrangeStart_def yrangeEnd_def
    using assms(6-9) by (simp_all only: int_of_float64_in_range)
  have "filter (\<lambda>t. tile_z t = zoom) ts =
      level_tiles zoom (corner0 xmin ymax zoom) (corner1 xmax ymin zoom)"
    unfolding TileList_NewProjection_Some(2) [OF assms(1)]
    using assms(2,3) by (intro filter_zoom_levels) simp_all
  then have "filter (\<lambda>t. tile_z t = zoom) ts =
       concat (map (\<lambda>x. map (mkTile zoom x)
                            (filter (\<lambda>y. 0 \<le> y \<and> y \<le> 2 ^ nat zoom)
                               [yrangeStart px0..yrangeEnd px1]))
                   (filter (\<lambda>x. 0 \<le> x \<and> x \<le> 2 ^ nat zoom)
                      [xrangeStart px0..xrangeEnd px1]))"
    by (simp only: c0 c1 level_tiles_def kept_eq [OF z])
  with b show ?thesis
    by (simp only: simp_thms)
qed

theorem C7_bounds_truncate_towards_zero_witness:
  "project_pixels (NewProjection (- 181) 0 0 0 0) (- 181) 0 0 = Some [- 1, 128]
   \<and> project_pixels (NewProjection (- 181) 0 0 0 0) 0 0 0 = Some [128, 128]
   \<and> \<bar>- 1 / 256 :: real\<bar> < 2 ^ 63 \<and> \<bar>128 / 256 :: real\<bar> < 2 ^ 63
   \<and> xrangeStart [- 1, 128] = \<lceil>- 1 / 256 :: real\<rceil>
   \<and> xrangeEnd [128, 128] = \<lfloor>128 / 256 :: real\<rfloor>
   \<and> TileList (NewProjection (- 181) 0 0 0 0) \<noteq> None
   \<and> filter (\<lambda>t. tile_z t = 0) (the (TileList (NewProjection (- 181) 0 0 0 0))) = [mkTile 0 0 0]"
proof -
  let ?p = "NewProjection (- 181) 0 0 0 0"
  obtain ts where ts: "TileList ?p = Some ts"
    using TileList_NewProjection [of 0 "- 181" 0 0 0] by simp
  have p0: "project_pixels ?p (- 181) 0 0 = Some [- 1, 128]"
    by (simp add: project_pixels_NewProjection pixel_x_def pixel_y_def Round_def minMax_def
        DEG_TO_RAD_def)
  have p1: "project_pixels ?p 0 0 0 = Some [128, 128]"
    by (simp add: project_pixels_NewProjection pixel_x_def pixel_y_def Round_def minMax_def
        DEG_TO_RAD_def)
  have c: "\<lceil>- (1 / 256 :: real)\<rceil> = 0"
    by (rule ceiling_unique) simp_all
  note t = C7_bounds_truncate_towards_zero [OF ts _ _ p0 p1]
  have b: "xrangeStart [- 1, 128] = 0" "xrangeEnd [128, 128] = 0"
    "yrangeStart [- 1, 128] = 0" "yrangeEnd [128, 128] = 0"
    using t c by simp_all
  have "filter (\<lambda>t. tile_z t = 0) ts = [mkTile 0 0 0]"
    using t by (simp add: b)
  with ts p0 p1 b c show ?thesis
    by simp
qed

section \<open>A box inside one tile\<close>

lemma int_of_float64_tile:
  assumes "0 \<le> c" and "c < 2 ^ 62"
    and "256 * real_of_int c \<le> px" and "px < 256 * (real_of_int c + 1)"
  shows "int_of_float64 (px / DEFAULT_TILE_SIZE) = c"
proof -
  have "real_of_int c + 1 \<le> 2 ^ 62"
    using assms(2) of_int_le_iff [of "c + 1" "2 ^ 62", where ?'a = real] by simp
  then have "px / 256 < 2 ^ 63"
    using assms(4) by simp
  moreover have "0 \<le> px / 256"
    using assms(1,3) by simp
  moreover have "\<lfloor>px / 256\<rfloor> = c"
    using assms(3,4) by (intro floor_unique) (simp_all add: le_divide_eq divide_less_eq mult.commute)
  ultimately show ?thesis
    by (simp add: int_of_float64_def towards_zero_def DEFAULT_TILE_SIZE_def)
qed

lemma pixel_unrounded:
  "pixel_x zoom x = Round (unrounded_x zoom x)" "pixel_y zoom y = Round (unrounded_y zoom y)"
  by (simp_all add: pixel_x_def pixel_y_def unrounded_x_def unrounded_y_def Let_def)

text \<open>
  C8 as stated (a box whose projection lies inside one tile gives one tile) fails when an
  edge of the box projects within half a pixel of the east or south border of the tile:
  the rounding to whole pixels moves that corner onto the next tile. At zoom 19 the box
  from longitude \<open>0.0001\<close> to \<open>0.000686\<close> on the equator projects, before rounding, to the
  pixel columns \<open>67108901.28\<close> and \<open>67109119.76\<close>, both inside the tile of column 262144
  (pixels from 67108864 up to, not including, 67109120), and to the pixel row 67108864 of
  the tile of row 262144; \<open>TileList\<close> returns two tiles, of columns 262144 and 262145.
\<close>

theorem C8_two_tiles_for_box_inside_one_tile:
  "256 * 262144 \<le> unrounded_x 19 0.0001 \<and> unrounded_x 19 0.0001 < 256 * 262145
   \<and> 256 * 262144 \<le> unrounded_x 19 0.000686 \<and> unrounded_x 19 0.000686 < 256 * 262145
   \<and> 256 * 262144 \<le> unrounded_y 19 0 \<and> unrounded_y 19 0 < 256 * 262145
   \<and> TileList (NewProjection 0.0001 0 0.000686 0 19) =
       Some [mkTile 19 262144 262144, mkTile 19 262145 262144]"
proof -
  have "TileList (NewProjection 0.0001 0 0.000686 0 19) =
       Some [mkTile 19 262144 262144, mkTile 19 262145 262144]"
    by (subst TileList_NewProjection)
      (simp_all add: level_tiles_def corner0_def corner1_def pixel_x_def pixel_y_def Round_def
        minMax_def DEG_TO_RAD_def xrangeStart_def xrangeEnd_def yrangeStart_def yrangeEnd_def
        int_of_float64_def towards_zero_def DEFAULT_TILE_SIZE_def kept_def upto_rec1)
  moreover have "256 * 262144 \<le> unrounded_x 19 0.0001" "unrounded_x 19 0.0001 < 256 * 262145"
    "256 * 262144 \<le> unrounded_x 19 0.000686" "unrounded_x 19 0.000686 < 256 * 262145"
    "256 * 262144 \<le> unrounded_y 19 0" "unrounded_y 19 0 < 256 * 262145"
    by (simp_all add: unrounded_x_def unrounded_y_def minMax_def DEG_TO_RAD_def)
  ultimately show ?thesis
    by (simp only: simp_thms)
qed

text \<open>
  C8, amended. When the two projected corners of the box at a zoom level of the list, as
  \<open>project_pixels\<close> returns them (rounded to whole pixels), lie in the pixel square of one
  tile of the grid (column \<open>col\<close>, row \<open>row\<close>, both from 0 to \<open>2^z - 1\<close>), the result holds
  exactly one tile of that zoom level, the tile \<open>(zoom, col, row)\<close>.
\<close>

theorem C8_box_inside_one_tile:
  assumes "TileList (NewProjection xmin ymin xmax ymax zoomlevel) = Some ts"
    and "zoomlevel \<le> zoom" and "zoom \<le> 19"
    and "project_pixels (NewProjection xmin ymin xmax ymax zoomlevel) xmin ymax zoom = Some px0"
    and "project_pixels (NewProjection xmin ymin xmax ymax zoomlevel) xmax ymin zoom = Some px1"
    and "0 \<le> col" and "col < 2 ^ nat zoom" and "0 \<le> row" and "row < 2 ^ nat zoom"
    and "256 * real_of_int col \<le> px0 ! 0" and "px0 ! 0 < 256 * (real_of_int col + 1)"
    and "256 * real_of_int col \<le> px1 ! 0" and "px1 ! 0 < 256 * (real_of_int col + 1)"
    and "256 * real_of_int row \<le> px0 ! 1" and "px0 ! 1 < 256 * (real_of_int row + 1)"
    and "256 * real_of_int row \<le> px1 ! 1" and "px1 ! 1 < 256 * (real_of_int row + 1)"
  shows "filter (\<lambda>t. tile_z t = zoom) ts = [mkTile zoom col row]"
proof -
  have z: "0 \<le> zoom"
    using assms(4) by (rule project_pixels_zoom)
  have c0: "corner0 xmin ymax zoom = px0" and c1: "corner1 xmax ymin zoom = px1"
    using assms(3-5) z by (simp_all add: project_pixels_NewProjection corner0_def corner1_def)
  have "(2::int) ^ nat zoom \<le> 2 ^ 19"
    using assms(3) by (intro power_increasing) simp_all
  then have "col < 2 ^ 62" "row < 2 ^ 62"
    using assms(7,9) by simp_all
  then have b: "xrangeStart px0 = col" "xrangeEnd px1 = col" "yrangeStart px0 = row" "yrangeEnd px1 = row"
    unfolding xrangeStart_def xrangeEnd_def yrangeStart_def yrangeEnd_def
    using assms(6-17) by (simp_all add: int_of_float64_tile)
  have k: "kept (2 powi zoom) col" "kept (2 powi zoom) row"
    using assms(6-9) by (simp_all add: kept_nonneg_zoom [OF z])
  have "filter (\<lambda>t. tile_z t = zoom) ts = level_tiles zoom (corner0 xmin ymax zoom) (corner1 xmax ymin zoom)"
    unfolding TileList_NewProjection_Some(2) [OF assms(1)]
    using assms(2,3) by (intro filter_zoom_levels) simp_all
  also have "\<dots> = [mkTile zoom col row]"
    by (simp add: c0 c1 level_tiles_def b k)
  finally show ?thesis .
qed

lemma TileList_one_tile:
  "TileList (NewProjection 0 0 0.0005 0 19) = Some [mkTile 19 262144 262144]"
  by (subst TileList_NewProjection)
    (simp_all add: level_tiles_def corner0_def corner1_def pixel_x_def pixel_y_def Round_def
      minMax_def DEG_TO_RAD_def xrangeStart_def xrangeEnd_def yrangeStart_def yrangeEnd_def
      int_of_float64_def towards_zero_def DEFAULT_TILE_SIZE_def kept_def upto_rec1)

theorem C8_box_inside_one_tile_witness:
  "TileList (NewProjection 0 0 0.0005 0 19) = Some [mkTile 19 262144 262144]
   \<and> project_pixels (NewProjection 0 0 0.0005 0 19) 0 0 19 = Some [67108864, 67108864]
   \<and> project_pixels (NewProjection 0 0 0.0005 0 19) 0.0005 0 19 = Some [67109050, 67108864]
   \<and> (256 * 262144 :: real) \<le> 67108864 \<and> (67109050 :: real) < 256 * (262144 + 1)
   \<and> filter (\<lambda>t. tile_z t = 19) [mkTile 19 262144 262144] = [mkTile 19 262144 262144]"
proof -
  let ?p = "NewProjection 0 0 0.0005 0 19"
  have p0: "project_pixels ?p 0 0 19 = Some [67108864, 67108864]"
    by (simp add: project_pixels_NewProjection pixel_x_def pixel_y_def Round_def minMax_def
        DEG_TO_RAD_def)
  have p1: "project_pixels ?p 0.0005 0 19 = Some [67109050, 67108864]"
    by (simp add: project_pixels_NewProjection pixel_x_def pixel_y_def Round_def minMax_def
        DEG_TO_RAD_def)
  have "filter (\<lambda>t. tile_z t = 19) [mkTile 19 262144 262144] = [mkTile 19 262144 262144]"
    by (rule C8_box_inside_one_tile [OF TileList_one_tile _ _ p0 p1]) simp_all
  with p0 p1 TileList_one_tile show ?thesis
    by simp
qed

section \<open>Fetching\<close>

text \<open>
  C2 as stated (every non-success response is an error, and nothing whose retrieval failed
  is forwarded) fails: a response with status 404 is no error for \<open>fetchTile\<close>; the fetcher
  forwards the body of the error page as the content of the tile and the writer stores it.
\<close>

theorem C2_not_found_is_forwarded:
  "fetchTile not_found_source 3 1 2 =
     Done \<lparr>tile_z = 3, tile_x = 1, tile_y = 2, Content = [52, 48, 52]\<rparr>
   \<and> tileFetcher not_found_source
       \<lparr>inputPipe = [mkTile 3 1 2], tilePipe = [], outputPipe = [], db = [],
        to_send = [], to_receive = 1\<rparr> =
     Done \<lparr>inputPipe = [],
           tilePipe = [\<lparr>tile_z = 3, tile_x = 1, tile_y = 2, Content = [52, 48, 52]\<rparr>],
           outputPipe = [], db = [], to_send = [], to_receive = 1\<rparr>
   \<and> mbTileWorker
       \<lparr>inputPipe = [],
        tilePipe = [\<lparr>tile_z = 3, tile_x = 1, tile_y = 2, Content = [52, 48, 52]\<rparr>],
        outputPipe = [], db = [], to_send = [], to_receive = 1\<rparr> =
     Done \<lparr>inputPipe = [], tilePipe = [],
           outputPipe = [\<lparr>tile_z = 3, tile_x = 1, tile_y = 2, Content = [52, 48, 52]\<rparr>],
           db = [\<lparr>tile_z = 3, tile_x = 1, tile_y = 2, Content = [52, 48, 52]\<rparr>],
           to_send = [], to_receive = 1\<rparr>"
  by (simp add: fetchTile_def tileFetcher_def mbTileWorker_def addToMBTile_def
      not_found_source_def mkTile_def)

text \<open>
  C2, amended. When the request for the tile at the head of the input channel fails in
  transport (\<^verbatim>\<open>http.Get\<close> returns an error), \<open>fetchTile\<close> ends the process, and so does the
  fetcher, which forwards nothing; the fetcher forwards a tile only when the request
  returned a response.
\<close>

theorem C2_transport_error_is_fatal:
  assumes "inputPipe s = tile # rest"
  shows "(get (tile_z tile) (tile_x tile) (tile_y tile) = GetError \<longrightarrow>
            fetchTile get (tile_z tile) (tile_x tile) (tile_y tile) = Fatal
          \<and> tileFetcher get s = Fatal)
       \<and> (\<forall>s'. tileFetcher get s = Done s' \<longrightarrow>
            get (tile_z tile) (tile_x tile) (tile_y tile) \<noteq> GetError)"
  using assms
  by (auto simp: fetchTile_def tileFetcher_def split: http_result.splits)

theorem C2_transport_error_is_fatal_witness:
  "inputPipe \<lparr>inputPipe = [mkTile 3 1 2], tilePipe = [], outputPipe = [], db = [],
       to_send = [], to_receive = 1\<rparr> = [mkTile 3 1 2]
   \<and> unreachable_source 3 1 2 = GetError
   \<and> fetchTile unreachable_source 3 1 2 = Fatal
   \<and> tileFetcher unreachable_source
       \<lparr>inputPipe = [mkTile 3 1 2], tilePipe = [], outputPipe = [], db = [],
        to_send = [], to_receive = 1\<rparr> = Fatal"
  using C2_transport_error_is_fatal [of
      "\<lparr>inputPipe = [mkTile 3 1 2], tilePipe = [], outputPipe = [], db = [],
        to_send = [], to_receive = 1\<rparr>" "mkTile 3 1 2" "[]" unreachable_source]
  by (simp add: unreachable_source_def)

text \<open>
  C9. When the request itself succeeds, \<open>fetchTile\<close> returns the tile with the requested
  \<open>z\<close>, \<open>x\<close>, \<open>y\<close> and the bytes that were read, whether or not reading the body gave an
  error: the error changes nothing, the process goes on, the fetcher forwards the tile,
  and the writer, when it takes the tile and no row with its key is stored yet, stores it.
\<close>

theorem C9_read_error_is_discarded:
  assumes "get z x y = Response st bytes err"
  shows "fetchTile get z x y = Done \<lparr>tile_z = z, tile_x = x, tile_y = y, Content = bytes\<rparr>
    \<and> (\<forall>s tile rest.
          inputPipe s = tile # rest \<and> tile_z tile = z \<and> tile_x tile = x \<and> tile_y tile = y \<longrightarrow>
          tileFetcher get s =
            Done (s\<lparr>inputPipe := rest,
                    tilePipe := tilePipe s @ [\<lparr>tile_z = z, tile_x = x, tile_y = y, Content = bytes\<rparr>]\<rparr>))
    \<and> (\<forall>s rest.
          tilePipe s = \<lparr>tile_z = z, tile_x = x, tile_y = y, Content = bytes\<rparr> # rest
          \<and> (z, x, y) \<notin> set (map tile_key (db s)) \<longrightarrow>
          mbTileWorker s =
            Done (s\<lparr>tilePipe := rest,
                    db := db s @ [\<lparr>tile_z = z, tile_x = x, tile_y = y, Content = bytes\<rparr>],
                    outputPipe := outputPipe s @ [\<lparr>tile_z = z, tile_x = x, tile_y = y, Content = bytes\<rparr>]\<rparr>))"
proof -
  have f: "fetchTile get z x y = Done \<lparr>tile_z = z, tile_x = x, tile_y = y, Content = bytes\<rparr>"
    using assms by (simp add: fetchTile_def)
  then have "tileFetcher get s =
            Done (s\<lparr>inputPipe := rest,
                    tilePipe := tilePipe s @ [\<lparr>tile_z = z, tile_x = x, tile_y = y, Content = bytes\<rparr>]\<rparr>)"
    if "inputPipe s = tile # rest" "tile_z tile = z" "tile_x tile = x" "tile_y tile = y"
    for s tile rest
    using that by (simp add: tileFetcher_def)
  moreover have "mbTileWorker s =
            Done (s\<lparr>tilePipe := rest,
                    db := db s @ [\<lparr>tile_z = z, tile_x = x, tile_y = y, Content = bytes\<rparr>],
                    outputPipe := outputPipe s @ [\<lparr>tile_z = z, tile_x = x, tile_y = y, Content = bytes\<rparr>]\<rparr>)"
    if "tilePipe s = \<lparr>tile_z = z, tile_x = x, tile_y = y, Content = bytes\<rparr> # rest"
      "(z, x, y) \<notin> set (map tile_key (db s))"
    for s rest
    using that by (simp add: mbTileWorker_def addToMBTile_def tile_key_def)
  ultimately show ?thesis
    using f by blast
qed

theorem C9_read_error_is_discarded_witness:
  "broken_body_source 3 1 2 = Response 200 [137] True
   \<and> fetchTile broken_body_source 3 1 2 =
       Done \<lparr>tile_z = 3, tile_x = 1, tile_y = 2, Content = [137]\<rparr>
   \<and> tileFetcher broken_body_source
       \<lparr>inputPipe = [mkTile 3 1 2], tilePipe = [], outputPipe = [], db = [],
        to_send = [], to_receive = 1\<rparr> =
     Done \<lparr>inputPipe = [],
           tilePipe = [\<lparr>tile_z = 3, tile_x = 1, tile_y = 2, Content = [137]\<rparr>],
           outputPipe = [], db = [], to_send = [], to_receive = 1\<rparr>
   \<and> mbTileWorker
       \<lparr>inputPipe = [],
        tilePipe = [\<lparr>tile_z = 3, tile_x = 1, tile_y = 2, Content = [137]\<rparr>],
        outputPipe = [], db = [], to_send = [], to_receive = 1\<rparr> =
     Done \<lparr>inputPipe = [], tilePipe = [],
           outputPipe = [\<lparr>tile_z = 3, tile_x = 1, tile_y = 2, Content = [137]\<rparr>],
           db = [\<lparr>tile_z = 3, tile_x = 1, tile_y = 2, Content = [137]\<rparr>],
           to_send = [], to_receive = 1\<rparr>"
proof -
  have g: "broken_body_source 3 1 2 = Response 200 [137] True"
    by (simp add: broken_body_source_def)
  note c = C9_read_error_is_discarded [of broken_body_source 3 1 2 200 "[137]" True, OF g]
  have 1: "fetchTile broken_body_source 3 1 2 =
       Done \<lparr>tile_z = 3, tile_x = 1, tile_y = 2, Content = [137]\<rparr>"
    using c by blast
  have 2: "tileFetcher broken_body_source
       \<lparr>inputPipe = [mkTile 3 1 2], tilePipe = [], outputPipe = [], db = [],
        to_send = [], to_receive = 1\<rparr> =
     Done \<lparr>inputPipe = [],
           tilePipe = [\<lparr>tile_z = 3, tile_x = 1, tile_y = 2, Content = [137]\<rparr>],
           outputPipe = [], db = [], to_send = [], to_receive = 1\<rparr>"
    using c [THEN conjunct2, THEN conjunct1, rule_format,
        of "\<lparr>inputPipe = [mkTile 3 1 2], tilePipe = [], outputPipe = [], db = [],
        to_send = [], to_receive = 1\<rparr>" "mkTile 3 1 2" "[]"]
    by simp
  have 3: "mbTileWorker
       \<lparr>inputPipe = [],
        tilePipe = [\<lparr>tile_z = 3, tile_x = 1, tile_y = 2, Content = [137]\<rparr>],
        outputPipe = [], db = [], to_send = [], to_receive = 1\<rparr> =
     Done \<lparr>inputPipe = [], tilePipe = [],
           outputPipe = [\<lparr>tile_z = 3, tile_x = 1, tile_y = 2, Content = [137]\<rparr>],
           db = [\<lparr>tile_z = 3, tile_x = 1, tile_y = 2, Content = [137]\<rparr>],
           to_send = [], to_receive = 1\<rparr>"
    using c [THEN conjunct2, THEN conjunct2, rule_format,
        of "\<lparr>inputPipe = [],
        tilePipe = [\<lparr>tile_z = 3, tile_x = 1, tile_y = 2, Content = [137]\<rparr>],
        outputPipe = [], db = [], to_send = [], to_receive = 1\<rparr>" "[]"]
    by simp
  from g 1 2 3 show ?thesis
    by (simp only: simp_thms)
qed

section \<open>A requested zoom above the maximum\<close>

text \<open>
  C10. For a requested zoom above 19, \<open>NewProjection\<close> builds an empty list of levels and
  \<open>TileList\<close> returns the empty list without a panic. The pipeline that \<^verbatim>\<open>main\<close> starts on
  it has nothing to send and no acknowledgement to wait for: both loops of \<^verbatim>\<open>main\<close> are
  over at once, with no row stored, and no fetcher and no writer can take a step.
\<close>

theorem C10_zoom_above_maximum:
  assumes "19 < zoomlevel"
  shows "levels (NewProjection xmin ymin xmax ymax zoomlevel) = []
    \<and> TileList (NewProjection xmin ymin xmax ymax zoomlevel) = Some []
    \<and> main_pipeline xmin ymin xmax ymax zoomlevel = Some (start_pipeline [])
    \<and> to_receive (start_pipeline []) = 0
    \<and> main_loops (start_pipeline []) = Exit
    \<and> db (start_pipeline []) = []
    \<and> tileFetcher get (start_pipeline []) = Blocked
    \<and> mbTileWorker (start_pipeline []) = Blocked
    \<and> (\<nexists>s'. step get (start_pipeline []) s')"
proof -
  have l: "levels (NewProjection xmin ymin xmax ymax zoomlevel) = []"
    using assms by (simp add: NewProjection_fields)
  have t: "TileList (NewProjection xmin ymin xmax ymax zoomlevel) = Some []"
    by (simp add: TileList_def l)
  have m: "main_pipeline xmin ymin xmax ymax zoomlevel = Some (start_pipeline [])"
    by (simp add: main_pipeline_def t)
  have s: "main_loops (start_pipeline []) = Exit" "tileFetcher get (start_pipeline []) = Blocked"
    "mbTileWorker (start_pipeline []) = Blocked"
    by (simp_all add: main_loops_def tileFetcher_def mbTileWorker_def start_pipeline_def)
  have "\<nexists>s'. step get (start_pipeline []) s'"
    by (simp add: step_def s)
  with l t m s show ?thesis
    by (simp add: start_pipeline_def)
qed

theorem C10_zoom_above_maximum_witness:
  "(19::int) < 20
   \<and> levels (NewProjection 55.397945 25.291090 55.402741 25.292889 20) = []
   \<and> TileList (NewProjection 55.397945 25.291090 55.402741 25.292889 20) = Some []
   \<and> main_pipeline 55.397945 25.291090 55.402741 25.292889 20 = Some (start_pipeline [])
   \<and> main_loops (start_pipeline []) = Exit
   \<and> db (start_pipeline []) = []"
  using C10_zoom_above_maximum [of 20 "55.397945" "25.291090" "55.402741" "25.292889"]
  by simp

section \<open>No uniqueness conflict in a run\<close>

text \<open>
  The keys of the tiles that are stored or still on their way to the store. A step moves
  a tile along without changing its key, so the keys stay distinct when they start
  distinct, and then the insert of the writer never meets a stored key.
\<close>

lemma keys_fetcher:
  assumes "tileFetcher get s = Done s'"
  shows "(map tile_key (db s' @ tilePipe s' @ inputPipe s' @ to_send s')) =
         (map tile_key (db s @ tilePipe s @ inputPipe s @ to_send s))"
  using assms
  by (auto simp: tileFetcher_def fetchTile_def tile_key_def
      split: list.splits http_result.splits outcome.splits)

lemma keys_writer:
  assumes "mbTileWorker s = Done s'"
  shows "(map tile_key (db s' @ tilePipe s' @ inputPipe s' @ to_send s')) =
         (map tile_key (db s @ tilePipe s @ inputPipe s @ to_send s))"
  using assms
  by (auto simp: mbTileWorker_def addToMBTile_def split: list.splits if_splits)

lemma keys_main:
  assumes "main_loops s = Done s'"
  shows "(map tile_key (db s' @ tilePipe s' @ inputPipe s' @ to_send s')) =
         (map tile_key (db s @ tilePipe s @ inputPipe s @ to_send s))"
  using assms
  by (auto simp: main_loops_def split: list.splits if_splits)

lemma keys_step:
  "step get s s' \<Longrightarrow>
   (map tile_key (db s' @ tilePipe s' @ inputPipe s' @ to_send s')) =
   (map tile_key (db s @ tilePipe s @ inputPipe s @ to_send s))"
  unfolding step_def using keys_fetcher keys_writer keys_main by blast

lemma keys_steps:
  "(step get)\<^sup>*\<^sup>* s s' \<Longrightarrow>
   (map tile_key (db s' @ tilePipe s' @ inputPipe s' @ to_send s')) =
   (map tile_key (db s @ tilePipe s @ inputPipe s @ to_send s))"
proof (induction rule: rtranclp_induct)
  case base
  then show ?case by simp
next
  case (step y z)
  from keys_step [OF step.hyps(2)] step.IH show ?case
    by (simp only:)
qed

lemma tile_key_sorted_distinct:
  "sorted_wrt tile_less ts \<Longrightarrow> distinct (map tile_key ts)"
proof (induction ts)
  case Nil
  then show ?case by simp
next
  case (Cons t ts)
  then show ?case
    by (auto simp: tile_less_def tile_key_def)
qed

lemma writer_never_conflicts:
  assumes "TileList (NewProjection xmin ymin xmax ymax zoomlevel) = Some ts"
    and "(step get)\<^sup>*\<^sup>* (start_pipeline ts) s"
  shows "mbTileWorker s \<noteq> Fatal"
proof -
  have "sorted_wrt tile_less ts"
    unfolding TileList_NewProjection_Some(2) [OF assms(1)]
    by (rule sorted_levels_tiles) simp
  then have "distinct (map tile_key ts)"
    by (rule tile_key_sorted_distinct)
  moreover have "(map tile_key (db s @ tilePipe s @ inputPipe s @ to_send s)) =
      (map tile_key ts)"
    using keys_steps [OF assms(2)] by (simp add: start_pipeline_def)
  ultimately have "distinct (map tile_key (db s @ tilePipe s @ inputPipe s @ to_send s))"
    by (simp only:)
  then show ?thesis
    by (auto simp: mbTileWorker_def addToMBTile_def split: list.splits)
qed

end
